theory Spec2Isabelle
  imports Complex_Main "HOL-Library.Sublist"
begin

section \<open>Strings and the character tables of the regular expression engine\<close>

text \<open>
  A Python \<open>str\<close> is a sequence of Unicode code points, so a string of the program is a
  list of code points (natural numbers). \<open>ustr\<close> turns a literal of ASCII characters
  into such a string.
\<close>

type_synonym ustr = "nat list"

definition ustr :: "string \<Rightarrow> ustr" where
  "ustr s = map of_char s"

text \<open>
  The character classes \<open>\s\<close>, \<open>\w\<close>, \<open>\d\<close> and the case folding of
  \<open>re.IGNORECASE\<close> are tables of the Unicode database, which is not part of the
  repository: they are a parameter of the matcher.
\<close>

record unicode_tables =
  uni_space :: "nat \<Rightarrow> bool"
  uni_word :: "nat \<Rightarrow> bool"
  uni_digit :: "nat \<Rightarrow> bool"
  uni_ci :: "nat \<Rightarrow> nat \<Rightarrow> bool"

text \<open>
  The tables of Python 3.11 (Unicode 14.0.0), for evaluating the matcher on concrete
  bodies. Below 128, \<open>\s\<close> is the space, the characters 9 to 13 and the separators 28 to
  31; \<open>\w\<close> is the letters, the digits and the underscore; \<open>\d\<close> is the digits. From 128
  on, each class is a list of ranges of code points.
\<close>

definition in_ranges :: "nat \<Rightarrow> (nat \<times> nat) list \<Rightarrow> bool" where
  "in_ranges c ranges = list_ex (\<lambda>(lo, hi). lo \<le> c \<and> c \<le> hi) ranges"

definition space_ranges :: "(nat \<times> nat) list" where
  "space_ranges =
     [(133, 133), (160, 160), (5760, 5760), (8192, 8202), (8232, 8233), (8239, 8239),
      (8287, 8287), (12288, 12288)]"

definition digit_ranges :: "(nat \<times> nat) list" where
  "digit_ranges =
     [(1632, 1641), (1776, 1785), (1984, 1993), (2406, 2415), (2534, 2543), (2662, 2671),
      (2790, 2799), (2918, 2927), (3046, 3055), (3174, 3183), (3302, 3311), (3430, 3439),
      (3558, 3567), (3664, 3673), (3792, 3801), (3872, 3881), (4160, 4169), (4240, 4249),
      (6112, 6121), (6160, 6169), (6470, 6479), (6608, 6617), (6784, 6793), (6800, 6809),
      (6992, 7001), (7088, 7097), (7232, 7241), (7248, 7257), (42528, 42537), (43216, 43225),
      (43264, 43273), (43472, 43481), (43504, 43513), (43600, 43609), (44016, 44025),
      (65296, 65305), (66720, 66729), (68912, 68921), (69734, 69743), (69872, 69881),
      (69942, 69951), (70096, 70105), (70384, 70393), (70736, 70745), (70864, 70873),
      (71248, 71257), (71360, 71369), (71472, 71481), (71904, 71913), (72016, 72025),
      (72784, 72793), (73040, 73049), (73120, 73129), (92768, 92777), (92864, 92873),
      (93008, 93017), (120782, 120831), (123200, 123209), (123632, 123641), (125264, 125273),
      (130032, 130041)]"

definition word_ranges :: "(nat \<times> nat) list" where
  "word_ranges =
     [(170, 170), (178, 179), (181, 181), (185, 186), (188, 190), (192, 214), (216, 246),
      (248, 705), (710, 721), (736, 740), (748, 748), (750, 750), (880, 884), (886, 887),
      (890, 893), (895, 895), (902, 902), (904, 906), (908, 908), (910, 929), (931, 1013),
      (1015, 1153), (1162, 1327), (1329, 1366), (1369, 1369), (1376, 1416), (1488, 1514),
      (1519, 1522), (1568, 1610), (1632, 1641), (1646, 1647), (1649, 1747), (1749, 1749),
      (1765, 1766), (1774, 1788), (1791, 1791), (1808, 1808), (1810, 1839), (1869, 1957),
      (1969, 1969), (1984, 2026), (2036, 2037), (2042, 2042), (2048, 2069), (2074, 2074),
      (2084, 2084), (2088, 2088), (2112, 2136), (2144, 2154), (2160, 2183), (2185, 2190),
      (2208, 2249), (2308, 2361), (2365, 2365), (2384, 2384), (2392, 2401), (2406, 2415),
      (2417, 2432), (2437, 2444), (2447, 2448), (2451, 2472), (2474, 2480), (2482, 2482),
      (2486, 2489), (2493, 2493), (2510, 2510), (2524, 2525), (2527, 2529), (2534, 2545),
      (2548, 2553), (2556, 2556), (2565, 2570), (2575, 2576), (2579, 2600), (2602, 2608),
      (2610, 2611), (2613, 2614), (2616, 2617), (2649, 2652), (2654, 2654), (2662, 2671),
      (2674, 2676), (2693, 2701), (2703, 2705), (2707, 2728), (2730, 2736), (2738, 2739),
      (2741, 2745), (2749, 2749), (2768, 2768), (2784, 2785), (2790, 2799), (2809, 2809),
      (2821, 2828), (2831, 2832), (2835, 2856), (2858, 2864), (2866, 2867), (2869, 2873),
      (2877, 2877), (2908, 2909), (2911, 2913), (2918, 2927), (2929, 2935), (2947, 2947),
      (2949, 2954), (2958, 2960), (2962, 2965), (2969, 2970), (2972, 2972), (2974, 2975),
      (2979, 2980), (2984, 2986), (2990, 3001), (3024, 3024), (3046, 3058), (3077, 3084),
      (3086, 3088), (3090, 3112), (3114, 3129), (3133, 3133), (3160, 3162), (3165, 3165),
      (3168, 3169), (3174, 3183), (3192, 3198), (3200, 3200), (3205, 3212), (3214, 3216),
      (3218, 3240), (3242, 3251), (3253, 3257), (3261, 3261), (3293, 3294), (3296, 3297),
      (3302, 3311), (3313, 3314), (3332, 3340), (3342, 3344), (3346, 3386), (3389, 3389),
      (3406, 3406), (3412, 3414), (3416, 3425), (3430, 3448), (3450, 3455), (3461, 3478),
      (3482, 3505), (3507, 3515), (3517, 3517), (3520, 3526), (3558, 3567), (3585, 3632),
      (3634, 3635), (3648, 3654), (3664, 3673), (3713, 3714), (3716, 3716), (3718, 3722),
      (3724, 3747), (3749, 3749), (3751, 3760), (3762, 3763), (3773, 3773), (3776, 3780),
      (3782, 3782), (3792, 3801), (3804, 3807), (3840, 3840), (3872, 3891), (3904, 3911),
      (3913, 3948), (3976, 3980), (4096, 4138), (4159, 4169), (4176, 4181), (4186, 4189),
      (4193, 4193), (4197, 4198), (4206, 4208), (4213, 4225), (4238, 4238), (4240, 4249),
      (4256, 4293), (4295, 4295), (4301, 4301), (4304, 4346), (4348, 4680), (4682, 4685),
      (4688, 4694), (4696, 4696), (4698, 4701), (4704, 4744), (4746, 4749), (4752, 4784),
      (4786, 4789), (4792, 4798), (4800, 4800), (4802, 4805), (4808, 4822), (4824, 4880),
      (4882, 4885), (4888, 4954), (4969, 4988), (4992, 5007), (5024, 5109), (5112, 5117),
      (5121, 5740), (5743, 5759), (5761, 5786), (5792, 5866), (5870, 5880), (5888, 5905),
      (5919, 5937), (5952, 5969), (5984, 5996), (5998, 6000), (6016, 6067), (6103, 6103),
      (6108, 6108), (6112, 6121), (6128, 6137), (6160, 6169), (6176, 6264), (6272, 6276),
      (6279, 6312), (6314, 6314), (6320, 6389), (6400, 6430), (6470, 6509), (6512, 6516),
      (6528, 6571), (6576, 6601), (6608, 6618), (6656, 6678), (6688, 6740), (6784, 6793),
      (6800, 6809), (6823, 6823), (6917, 6963), (6981, 6988), (6992, 7001), (7043, 7072),
      (7086, 7141), (7168, 7203), (7232, 7241), (7245, 7293), (7296, 7304), (7312, 7354),
      (7357, 7359), (7401, 7404), (7406, 7411), (7413, 7414), (7418, 7418), (7424, 7615),
      (7680, 7957), (7960, 7965), (7968, 8005), (8008, 8013), (8016, 8023), (8025, 8025),
      (8027, 8027), (8029, 8029), (8031, 8061), (8064, 8116), (8118, 8124), (8126, 8126),
      (8130, 8132), (8134, 8140), (8144, 8147), (8150, 8155), (8160, 8172), (8178, 8180),
      (8182, 8188), (8304, 8305), (8308, 8313), (8319, 8329), (8336, 8348), (8450, 8450),
      (8455, 8455), (8458, 8467), (8469, 8469), (8473, 8477), (8484, 8484), (8486, 8486),
      (8488, 8488), (8490, 8493), (8495, 8505), (8508, 8511), (8517, 8521), (8526, 8526),
      (8528, 8585), (9312, 9371), (9450, 9471), (10102, 10131), (11264, 11492),
      (11499, 11502), (11506, 11507), (11517, 11517), (11520, 11557), (11559, 11559),
      (11565, 11565), (11568, 11623), (11631, 11631), (11648, 11670), (11680, 11686),
      (11688, 11694), (11696, 11702), (11704, 11710), (11712, 11718), (11720, 11726),
      (11728, 11734), (11736, 11742), (11823, 11823), (12293, 12295), (12321, 12329),
      (12337, 12341), (12344, 12348), (12353, 12438), (12445, 12447), (12449, 12538),
      (12540, 12543), (12549, 12591), (12593, 12686), (12690, 12693), (12704, 12735),
      (12784, 12799), (12832, 12841), (12872, 12879), (12881, 12895), (12928, 12937),
      (12977, 12991), (13312, 19903), (19968, 42124), (42192, 42237), (42240, 42508),
      (42512, 42539), (42560, 42606), (42623, 42653), (42656, 42735), (42775, 42783),
      (42786, 42888), (42891, 42954), (42960, 42961), (42963, 42963), (42965, 42969),
      (42994, 43009), (43011, 43013), (43015, 43018), (43020, 43042), (43056, 43061),
      (43072, 43123), (43138, 43187), (43216, 43225), (43250, 43255), (43259, 43259),
      (43261, 43262), (43264, 43301), (43312, 43334), (43360, 43388), (43396, 43442),
      (43471, 43481), (43488, 43492), (43494, 43518), (43520, 43560), (43584, 43586),
      (43588, 43595), (43600, 43609), (43616, 43638), (43642, 43642), (43646, 43695),
      (43697, 43697), (43701, 43702), (43705, 43709), (43712, 43712), (43714, 43714),
      (43739, 43741), (43744, 43754), (43762, 43764), (43777, 43782), (43785, 43790),
      (43793, 43798), (43808, 43814), (43816, 43822), (43824, 43866), (43868, 43881),
      (43888, 44002), (44016, 44025), (44032, 55203), (55216, 55238), (55243, 55291),
      (63744, 64109), (64112, 64217), (64256, 64262), (64275, 64279), (64285, 64285),
      (64287, 64296), (64298, 64310), (64312, 64316), (64318, 64318), (64320, 64321),
      (64323, 64324), (64326, 64433), (64467, 64829), (64848, 64911), (64914, 64967),
      (65008, 65019), (65136, 65140), (65142, 65276), (65296, 65305), (65313, 65338),
      (65345, 65370), (65382, 65470), (65474, 65479), (65482, 65487), (65490, 65495),
      (65498, 65500), (65536, 65547), (65549, 65574), (65576, 65594), (65596, 65597),
      (65599, 65613), (65616, 65629), (65664, 65786), (65799, 65843), (65856, 65912),
      (65930, 65931), (66176, 66204), (66208, 66256), (66273, 66299), (66304, 66339),
      (66349, 66378), (66384, 66421), (66432, 66461), (66464, 66499), (66504, 66511),
      (66513, 66517), (66560, 66717), (66720, 66729), (66736, 66771), (66776, 66811),
      (66816, 66855), (66864, 66915), (66928, 66938), (66940, 66954), (66956, 66962),
      (66964, 66965), (66967, 66977), (66979, 66993), (66995, 67001), (67003, 67004),
      (67072, 67382), (67392, 67413), (67424, 67431), (67456, 67461), (67463, 67504),
      (67506, 67514), (67584, 67589), (67592, 67592), (67594, 67637), (67639, 67640),
      (67644, 67644), (67647, 67669), (67672, 67702), (67705, 67742), (67751, 67759),
      (67808, 67826), (67828, 67829), (67835, 67867), (67872, 67897), (67968, 68023),
      (68028, 68047), (68050, 68096), (68112, 68115), (68117, 68119), (68121, 68149),
      (68160, 68168), (68192, 68222), (68224, 68255), (68288, 68295), (68297, 68324),
      (68331, 68335), (68352, 68405), (68416, 68437), (68440, 68466), (68472, 68497),
      (68521, 68527), (68608, 68680), (68736, 68786), (68800, 68850), (68858, 68899),
      (68912, 68921), (69216, 69246), (69248, 69289), (69296, 69297), (69376, 69415),
      (69424, 69445), (69457, 69460), (69488, 69505), (69552, 69579), (69600, 69622),
      (69635, 69687), (69714, 69743), (69745, 69746), (69749, 69749), (69763, 69807),
      (69840, 69864), (69872, 69881), (69891, 69926), (69942, 69951), (69956, 69956),
      (69959, 69959), (69968, 70002), (70006, 70006), (70019, 70066), (70081, 70084),
      (70096, 70106), (70108, 70108), (70113, 70132), (70144, 70161), (70163, 70187),
      (70272, 70278), (70280, 70280), (70282, 70285), (70287, 70301), (70303, 70312),
      (70320, 70366), (70384, 70393), (70405, 70412), (70415, 70416), (70419, 70440),
      (70442, 70448), (70450, 70451), (70453, 70457), (70461, 70461), (70480, 70480),
      (70493, 70497), (70656, 70708), (70727, 70730), (70736, 70745), (70751, 70753),
      (70784, 70831), (70852, 70853), (70855, 70855), (70864, 70873), (71040, 71086),
      (71128, 71131), (71168, 71215), (71236, 71236), (71248, 71257), (71296, 71338),
      (71352, 71352), (71360, 71369), (71424, 71450), (71472, 71483), (71488, 71494),
      (71680, 71723), (71840, 71922), (71935, 71942), (71945, 71945), (71948, 71955),
      (71957, 71958), (71960, 71983), (71999, 71999), (72001, 72001), (72016, 72025),
      (72096, 72103), (72106, 72144), (72161, 72161), (72163, 72163), (72192, 72192),
      (72203, 72242), (72250, 72250), (72272, 72272), (72284, 72329), (72349, 72349),
      (72368, 72440), (72704, 72712), (72714, 72750), (72768, 72768), (72784, 72812),
      (72818, 72847), (72960, 72966), (72968, 72969), (72971, 73008), (73030, 73030),
      (73040, 73049), (73056, 73061), (73063, 73064), (73066, 73097), (73112, 73112),
      (73120, 73129), (73440, 73458), (73648, 73648), (73664, 73684), (73728, 74649),
      (74752, 74862), (74880, 75075), (77712, 77808), (77824, 78894), (82944, 83526),
      (92160, 92728), (92736, 92766), (92768, 92777), (92784, 92862), (92864, 92873),
      (92880, 92909), (92928, 92975), (92992, 92995), (93008, 93017), (93019, 93025),
      (93027, 93047), (93053, 93071), (93760, 93846), (93952, 94026), (94032, 94032),
      (94099, 94111), (94176, 94177), (94179, 94179), (94208, 100343), (100352, 101589),
      (101632, 101640), (110576, 110579), (110581, 110587), (110589, 110590),
      (110592, 110882), (110928, 110930), (110948, 110951), (110960, 111355),
      (113664, 113770), (113776, 113788), (113792, 113800), (113808, 113817),
      (119520, 119539), (119648, 119672), (119808, 119892), (119894, 119964),
      (119966, 119967), (119970, 119970), (119973, 119974), (119977, 119980),
      (119982, 119993), (119995, 119995), (119997, 120003), (120005, 120069),
      (120071, 120074), (120077, 120084), (120086, 120092), (120094, 120121),
      (120123, 120126), (120128, 120132), (120134, 120134), (120138, 120144),
      (120146, 120485), (120488, 120512), (120514, 120538), (120540, 120570),
      (120572, 120596), (120598, 120628), (120630, 120654), (120656, 120686),
      (120688, 120712), (120714, 120744), (120746, 120770), (120772, 120779),
      (120782, 120831), (122624, 122654), (123136, 123180), (123191, 123197),
      (123200, 123209), (123214, 123214), (123536, 123565), (123584, 123627),
      (123632, 123641), (124896, 124902), (124904, 124907), (124909, 124910),
      (124912, 124926), (124928, 125124), (125127, 125135), (125184, 125251),
      (125259, 125259), (125264, 125273), (126065, 126123), (126125, 126127),
      (126129, 126132), (126209, 126253), (126255, 126269), (126464, 126467),
      (126469, 126495), (126497, 126498), (126500, 126500), (126503, 126503),
      (126505, 126514), (126516, 126519), (126521, 126521), (126523, 126523),
      (126530, 126530), (126535, 126535), (126537, 126537), (126539, 126539),
      (126541, 126543), (126545, 126546), (126548, 126548), (126551, 126551),
      (126553, 126553), (126555, 126555), (126557, 126557), (126559, 126559),
      (126561, 126562), (126564, 126564), (126567, 126570), (126572, 126578),
      (126580, 126583), (126585, 126588), (126590, 126590), (126592, 126601),
      (126603, 126619), (126625, 126627), (126629, 126633), (126635, 126651),
      (127232, 127244), (130032, 130041), (131072, 173791), (173824, 177976),
      (177984, 178205), (178208, 183969), (183984, 191456), (194560, 195101),
      (196608, 201546)]"

text \<open>
  Case folding, for the characters of the patterns of the module (ASCII characters and the
  rupee sign) against any character: a letter matches its other case and its partners
  outside ASCII (U+0130 and U+0131 for \<open>i\<close>, U+017F for \<open>s\<close>, U+212A for \<open>k\<close>); another
  character matches itself.
\<close>

definition fold_case :: "nat \<Rightarrow> nat" where
  "fold_case c =
     (if 65 \<le> c \<and> c \<le> 90 then c + 32
      else if c = 304 \<or> c = 305 then 105
      else if c = 383 then 115
      else if c = 8490 then 107
      else c)"

definition python_tables :: unicode_tables where
  "python_tables =
     \<lparr> uni_space = (\<lambda>c. if c < 128 then c = 32 \<or> (9 \<le> c \<and> c \<le> 13) \<or> (28 \<le> c \<and> c \<le> 31)
                        else in_ranges c space_ranges),
       uni_word = (\<lambda>c. if c < 128
                       then (48 \<le> c \<and> c \<le> 57) \<or> (65 \<le> c \<and> c \<le> 90) \<or> (97 \<le> c \<and> c \<le> 122) \<or> c = 95
                       else in_ranges c word_ranges),
       uni_digit = (\<lambda>c. if c < 128 then 48 \<le> c \<and> c \<le> 57 else in_ranges c digit_ranges),
       uni_ci = (\<lambda>p c. fold_case p = fold_case c) \<rparr>"

section \<open>Regular expressions as used by \<open>zenorc.py\<close>\<close>

text \<open>
  Sets of one character: a literal, a bracket class, \<open>\s\<close> and \<open>\d\<close>. Both patterns
  of the module are used with \<open>re.IGNORECASE\<close>, so literals and class members are
  compared through the case folding table.
\<close>

datatype cset = Lit nat | OneOf "nat list" | WS | DIG

fun cset_match :: "unicode_tables \<Rightarrow> cset \<Rightarrow> nat \<Rightarrow> bool" where
  "cset_match U (Lit p) c = uni_ci U p c"
| "cset_match U (OneOf ps) c = list_ex (\<lambda>p. uni_ci U p c) ps"
| "cset_match U WS c = uni_space U c"
| "cset_match U DIG c = uni_digit U c"

datatype rx =
    Eps
  | Atom cset
  | Seq rx rx
  | Alt rx rx
  | Opt rx
  | Many cset
  | AtLeast nat cset
  | Group rx
  | WordB

text \<open>
  A position of the matcher: the text before it (reversed), the text after it, and the
  text of capturing group 1 when the group has been closed.
\<close>

type_synonym mstate = "ustr \<times> ustr \<times> ustr option"

text \<open>\<open>\b\<close>: exactly one of the two neighbouring characters is a word character.\<close>

definition is_word_at :: "unicode_tables \<Rightarrow> ustr \<Rightarrow> bool" where
  "is_word_at U cs = (case cs of [] \<Rightarrow> False | c # _ \<Rightarrow> uni_word U c)"

definition word_boundary :: "unicode_tables \<Rightarrow> ustr \<Rightarrow> ustr \<Rightarrow> bool" where
  "word_boundary U bef aft = (is_word_at U bef \<noteq> is_word_at U aft)"

text \<open>The positions reached from a position after \<open>k\<close> more characters, for the greedy
  repetitions: the longest run first.\<close>

definition advance :: "nat \<Rightarrow> mstate \<Rightarrow> mstate" where
  "advance k s = (case s of (b, a, g) \<Rightarrow> (rev (take k a) @ b, drop k a, g))"

definition run_length :: "unicode_tables \<Rightarrow> cset \<Rightarrow> ustr \<Rightarrow> nat" where
  "run_length U cs a = length (takeWhile (cset_match U cs) a)"

text \<open>
  The backtracking matcher: all the positions where a match of the pattern starting at
  the given position can end, in the order in which the engine tries them (the first
  alternative first, an optional part and a repetition as long as possible first).
\<close>

fun run :: "unicode_tables \<Rightarrow> rx \<Rightarrow> mstate \<Rightarrow> mstate list" where
  "run U Eps s = [s]"
| "run U (Atom cs) s =
     (case s of (b, a, g) \<Rightarrow>
        (case a of [] \<Rightarrow> [] | c # a' \<Rightarrow> if cset_match U cs c then [(c # b, a', g)] else []))"
| "run U (Seq r1 r2) s = concat (map (run U r2) (run U r1 s))"
| "run U (Alt r1 r2) s = run U r1 s @ run U r2 s"
| "run U (Opt r) s = run U r s @ [s]"
| "run U (Many cs) s =
     map (\<lambda>k. advance k s) (rev [0 ..< Suc (run_length U cs (fst (snd s)))])"
| "run U (AtLeast m cs) s =
     map (\<lambda>k. advance k s) (rev [m ..< Suc (run_length U cs (fst (snd s)))])"
| "run U (Group r) s =
     map (\<lambda>s'. (fst s', fst (snd s'),
                 Some (rev (take (length (fst s') - length (fst s)) (fst s')))))
         (run U r s)"
| "run U WordB s =
     (case s of (b, a, g) \<Rightarrow> if word_boundary U b a then [s] else [])"

text \<open>\<open>re.search\<close>: the first start position, from the left, at which the pattern
  matches; the result is the end position of the first match the engine finds there.\<close>

fun search_from :: "unicode_tables \<Rightarrow> rx \<Rightarrow> ustr \<Rightarrow> ustr \<Rightarrow> mstate option" where
  "search_from U r b a =
     (case run U r (b, a, None) of
        s # _ \<Rightarrow> Some s
      | [] \<Rightarrow> (case a of [] \<Rightarrow> None | c # a' \<Rightarrow> search_from U r (c # b) a'))"

definition re_search :: "unicode_tables \<Rightarrow> rx \<Rightarrow> ustr \<Rightarrow> mstate option" where
  "re_search U r body = search_from U r [] body"

section \<open>The inbox scanner: classification\<close>

text \<open>A literal character of a pattern, and a word of literal characters.\<close>

definition ch :: "char \<Rightarrow> cset" where
  "ch c = Lit (of_char c)"

fun lits :: "string \<Rightarrow> rx" where
  "lits [] = Eps"
| "lits (c # cs) = Seq (Atom (ch c)) (lits cs)"

text \<open>The rupee sign, U+20B9.\<close>

definition rupee :: nat where
  "rupee = 8377"

text \<open>\<^verbatim>\<open>(?:RUPEE|rs\.?|inr)\s*[, ]*\s*5(?:[.,]00)?\b\<close>, where RUPEE is the rupee sign.\<close>

definition AMT_5_RE :: rx where
  "AMT_5_RE =
     Seq (Alt (Atom (Lit rupee))
           (Alt (Seq (lits ''rs'') (Opt (Atom (ch CHR ''.''))))
                (lits ''inr'')))
    (Seq (Many WS)
    (Seq (Many (OneOf (ustr '', '')))
    (Seq (Many WS)
    (Seq (Atom (ch CHR ''5''))
    (Seq (Opt (Seq (Atom (OneOf (ustr ''.,''))) (lits ''00'')))
         WordB)))))"

definition is_valid_payment :: "unicode_tables \<Rightarrow> ustr \<Rightarrow> bool" where
  "is_valid_payment U body_lc =
     (let is_credit = (sublist (ustr ''credited'') body_lc \<and> \<not> sublist (ustr ''debited'') body_lc);
          is_correct_amount = (re_search U AMT_5_RE body_lc \<noteq> None)
      in is_credit \<and> is_correct_amount)"

section \<open>The inbox scanner: the transaction identifier\<close>


text \<open>
  The two reference-number patterns, in the order of the list \<open>patterns\<close>:
  \<^verbatim>\<open>Reference\s*(?:No\.?|number)?\s*[:\-]?\s*(\d{8,})\<close> and
  \<^verbatim>\<open>transaction reference number\s*(?:is)?\s*[:\-]?\s*(\d{8,})\<close>.
  Each is the part before the group, followed by the group of at least eight digits.
\<close>

definition REF_HEAD :: rx where
  "REF_HEAD =
     Seq (lits ''Reference'')
    (Seq (Many WS)
    (Seq (Opt (Alt (Seq (lits ''No'') (Opt (Atom (ch CHR ''.'')))) (lits ''number'')))
    (Seq (Many WS)
    (Seq (Opt (Atom (OneOf (ustr '':-''))))
         (Many WS)))))"

definition TXN_HEAD :: rx where
  "TXN_HEAD =
     Seq (lits ''transaction reference number'')
    (Seq (Many WS)
    (Seq (Opt (lits ''is''))
    (Seq (Many WS)
    (Seq (Opt (Atom (OneOf (ustr '':-''))))
         (Many WS)))))"

definition digits8 :: rx where
  "digits8 = Group (AtLeast 8 DIG)"

definition patterns :: "rx list" where
  "patterns = [Seq REF_HEAD digits8, Seq TXN_HEAD digits8]"

text \<open>\<open>match.group(1)\<close>; Python gives \<open>None\<close> for a group that took no part in the match.\<close>

definition group1 :: "mstate \<Rightarrow> ustr option" where
  "group1 s = snd (snd s)"

text \<open>The decimal digits of an integer, as \<open>str\<close> and an f-string print it.\<close>

function str_nat :: "nat \<Rightarrow> ustr" where
  "str_nat n = (if n < 10 then [48 + n] else str_nat (n div 10) @ [48 + n mod 10])"
  by pat_completeness auto
termination
  by (relation "measure id") auto

definition str_int :: "int \<Rightarrow> ustr" where
  "str_int i = (if i < 0 then 45 # str_nat (nat (- i)) else str_nat (nat i))"

text \<open>\<open>int(time.time())\<close>: the clock reading, cut to whole seconds (towards zero).\<close>

definition py_int :: "rat \<Rightarrow> int" where
  "py_int t = (if 0 \<le> t then \<lfloor>t\<rfloor> else \<lceil>t\<rceil>)"

text \<open>
  \<open>_extract_txn_id\<close>: the loop over the patterns returns at the first pattern that
  matches; after the loop the identifier is made from the clock.
\<close>

fun first_group :: "unicode_tables \<Rightarrow> rx list \<Rightarrow> ustr \<Rightarrow> ustr option option" where
  "first_group U [] body = None"
| "first_group U (pat # pats) body =
     (case re_search U pat body of
        Some match \<Rightarrow> Some (group1 match)
      | None \<Rightarrow> first_group U pats body)"

definition extract_txn_id :: "unicode_tables \<Rightarrow> rat \<Rightarrow> ustr \<Rightarrow> ustr option" where
  "extract_txn_id U now body =
     (case first_group U patterns body of
        Some g \<Rightarrow> g
      | None \<Rightarrow> Some (ustr ''TXN'' @ str_int (py_int now)))"

section \<open>What a match is: the meaning of a pattern\<close>

text \<open>
  The matcher above is how the engine computes. What it computes is stated here, without
  any search order: \<open>sem U r b m a\<close> holds when the text \<open>m\<close>, found between the
  text before it (\<open>b\<close>, reversed) and the text after it (\<open>a\<close>), is a match of \<open>r\<close>.
\<close>

primrec sem :: "unicode_tables \<Rightarrow> rx \<Rightarrow> ustr \<Rightarrow> ustr \<Rightarrow> ustr \<Rightarrow> bool" where
  "sem U Eps b m a = (m = [])"
| "sem U (Atom cs) b m a = (\<exists>c. m = [c] \<and> cset_match U cs c)"
| "sem U (Seq r1 r2) b m a =
     (\<exists>m1 m2. m = m1 @ m2 \<and> sem U r1 b m1 (m2 @ a) \<and> sem U r2 (rev m1 @ b) m2 a)"
| "sem U (Alt r1 r2) b m a = (sem U r1 b m a \<or> sem U r2 b m a)"
| "sem U (Opt r) b m a = (sem U r b m a \<or> m = [])"
| "sem U (Many cs) b m a = list_all (cset_match U cs) m"
| "sem U (AtLeast n cs) b m a = (n \<le> length m \<and> list_all (cset_match U cs) m)"
| "sem U (Group r) b m a = sem U r b m a"
| "sem U WordB b m a = (m = [] \<and> word_boundary U b a)"

text \<open>
  The amount pattern in the words of the specification: a currency symbol or code, an
  optional separator, the amount, an optional decimal suffix, and the end of a word.
  \<open>ci_text U p t\<close>: the text \<open>t\<close> is the literal \<open>p\<close> up to case.
\<close>

definition ci_text :: "unicode_tables \<Rightarrow> string \<Rightarrow> ustr \<Rightarrow> bool" where
  "ci_text U p t = list_all2 (uni_ci U) (ustr p) t"

definition currency :: "unicode_tables \<Rightarrow> ustr \<Rightarrow> bool" where
  "currency U cur =
     ((\<exists>c. cur = [c] \<and> uni_ci U rupee c) \<or> ci_text U ''rs'' cur \<or> ci_text U ''rs.'' cur
      \<or> ci_text U ''inr'' cur)"

definition separator :: "unicode_tables \<Rightarrow> ustr \<Rightarrow> bool" where
  "separator U sep =
     (\<exists>s1 s2 s3. sep = s1 @ s2 @ s3 \<and> list_all (uni_space U) s1
        \<and> list_all (\<lambda>c. uni_ci U (of_char CHR '','') c \<or> uni_ci U (of_char CHR '' '') c) s2
        \<and> list_all (uni_space U) s3)"

definition decimal_suffix :: "unicode_tables \<Rightarrow> ustr \<Rightarrow> bool" where
  "decimal_suffix U suf = (suf = [] \<or> ci_text U ''.00'' suf \<or> ci_text U '',00'' suf)"

definition amount_phrase :: "unicode_tables \<Rightarrow> ustr \<Rightarrow> ustr \<Rightarrow> bool" where
  "amount_phrase U m post =
     (\<exists>cur sep five suf. m = cur @ sep @ five @ suf \<and> currency U cur \<and> separator U sep
        \<and> ci_text U ''5'' five \<and> decimal_suffix U suf
        \<and> word_boundary U (rev (five @ suf)) post)"

text \<open>
  In the words of the specification: a body matches a pattern when some part of it is a
  match; \<open>leftmost_capture U head body d\<close> says that \<open>d\<close> is the group of a match of
  \<open>head\<close> followed by the digits \<open>d\<close>, that the digits are at least eight and go on
  as far as digits go, and that no match starts further to the left.
\<close>

definition matches :: "unicode_tables \<Rightarrow> rx \<Rightarrow> ustr \<Rightarrow> bool" where
  "matches U r body = (\<exists>pre m post. body = pre @ m @ post \<and> sem U r (rev pre) m post)"

definition digit_at :: "unicode_tables \<Rightarrow> ustr \<Rightarrow> bool" where
  "digit_at U cs = (case cs of [] \<Rightarrow> False | c # _ \<Rightarrow> uni_digit U c)"

definition leftmost_capture :: "unicode_tables \<Rightarrow> rx \<Rightarrow> ustr \<Rightarrow> ustr \<Rightarrow> bool" where
  "leftmost_capture U head body d =
     (\<exists>pre h post. body = pre @ h @ d @ post \<and> sem U head (rev pre) h (d @ post)
        \<and> 8 \<le> length d \<and> list_all (uni_digit U) d \<and> \<not> digit_at U post
        \<and> (\<forall>pre' m' post'. body = pre' @ m' @ post' \<and> length pre' < length pre
              \<longrightarrow> \<not> sem U (Seq head digits8) (rev pre') m' post'))"

section \<open>The pipeline of \<open>zenorc.py\<close>: state, ledger recorder, the two loops\<close>

text \<open>The exceptions that the modelled code raises or catches; all are subclasses of
  \<open>Exception\<close>. \<open>OtherException\<close> stands for any other one raised by a library.\<close>

datatype exn =
    NameError string
  | ZoneInfoNotFoundError string
  | RuntimeError string
  | FileNotFoundError string
  | TimeoutError string
  | ConnectionError string
  | OtherException string

text \<open>
  The names bound at the top level of \<open>zenorc.py\<close>: its imports, its configuration
  constants, its global state and its functions. The module has
  \<open>from zoneinfo import ZoneInfo\<close> and no other import from \<open>zoneinfo\<close>.
\<close>

definition module_names :: "string list" where
  "module_names =
     [''annotations'', ''email'', ''imaplib'', ''os'', ''re'', ''threading'', ''time'', ''uuid'',
      ''deque'', ''datetime'', ''Optional'', ''ZoneInfo'', ''gspread'', ''mqtt'', ''load_dotenv'',
      ''ServiceAccountCredentials'',
      ''EMAIL_ID'', ''EMAIL_PASSWORD'', ''MQTT_BROKER'', ''MQTT_PORT'', ''MQTT_USERNAME'',
      ''MQTT_PASSWORD'', ''MQTT_TOPIC'', ''CLIENT_ID'', ''GSHEET_URL'', ''GSHEET_CREDS_PATH'',
      ''SEARCH_STRINGS'', ''COOLDOWN_SECONDS'',
      ''imap_lock'', ''seen_uids'', ''seen_txn_ids'', ''queue'', ''status'', ''last_processed'',
      ''log'', ''tz_mumbai'', ''_sheet'', ''_bootstrap_txns'', ''log_payment'', ''send_mqtt'',
      ''_imap_login'', ''_extract_txn_id'', ''_AMT_5_RE'', ''_is_valid_payment'', ''poll_email'',
      ''processor'', ''main_loop'', ''start'']"

text \<open>Evaluating a global name: a name that is not bound raises \<open>NameError\<close> (Python's
  builtins have no \<open>ZoneInfoNotFoundError\<close>).\<close>

definition lookup_global :: "string \<Rightarrow> exn + unit" where
  "lookup_global name = (if name \<in> set module_names then Inr () else Inl (NameError name))"

datatype zone = ZoneInfo string

text \<open>\<open>ZoneInfo(key)\<close> against a time zone database, given by the keys it has.\<close>

definition zoneinfo :: "(string \<Rightarrow> bool) \<Rightarrow> string \<Rightarrow> exn + zone" where
  "zoneinfo db key = (if db key then Inr (ZoneInfo key) else Inl (ZoneInfoNotFoundError key))"

text \<open>
  \<open>tz_mumbai\<close>: when \<open>ZoneInfo("Asia/Mumbai")\<close> raises, the \<open>except\<close> clause first
  evaluates the name \<open>ZoneInfoNotFoundError\<close>, then compares the exception with it.
\<close>

definition tz_mumbai :: "(string \<Rightarrow> bool) \<Rightarrow> exn + zone" where
  "tz_mumbai db =
     (case zoneinfo db ''Asia/Mumbai'' of
        Inr z \<Rightarrow> Inr z
      | Inl e \<Rightarrow>
          (case lookup_global ''ZoneInfoNotFoundError'' of
             Inl name_error \<Rightarrow> Inl name_error
           | Inr _ \<Rightarrow> (case e of ZoneInfoNotFoundError _ \<Rightarrow> zoneinfo db ''UTC'' | _ \<Rightarrow> Inl e)))"

datatype txn_status = Queued | Processing | Completed | Failed

datatype level = INFO | WARN | ERROR

datatype message =
    Logged_to_sheets ustr
  | Failed_to_log_payment exn
  | Queued_message ustr nat
  | Cooldown_active int
  | Processing_message ustr
  | Completed_message bool ustr

text \<open>The global state of the module, with the rows of the sheet and the lines printed by
  \<open>log\<close>.\<close>

record zstate =
  seen_txn_ids :: "ustr set"
  queue :: "ustr list"
  status :: "ustr \<rightharpoonup> txn_status"
  last_processed :: rat
  sheet_rows :: "(ustr \<times> ustr \<times> ustr \<times> ustr) list"
  logs :: "(level \<times> message) list"

definition log_line :: "level \<Rightarrow> message \<Rightarrow> zstate \<Rightarrow> zstate" where
  "log_line lv m s = s\<lparr>logs := logs s @ [(lv, m)]\<rparr>"

text \<open>What \<open>log_payment\<close> meets outside the program: the configuration, the credentials
  file, the spreadsheet service, the time zone database and the clock.\<close>

record ledger_env =
  gsheet_url :: "string option"
  creds_is_file :: bool
  open_sheet_raises :: "exn option"
  zone_db :: "string \<Rightarrow> bool"
  append_row_raises :: "exn option"
  now_date :: ustr
  now_time :: ustr

definition sheet :: "ledger_env \<Rightarrow> exn + unit" where
  "sheet env =
     (if gsheet_url env = None \<or> gsheet_url env = Some [] then
        Inl (RuntimeError ''GSHEET_URL env var missing'')
      else if \<not> creds_is_file env then Inl (FileNotFoundError ''Credentials not found'')
      else (case open_sheet_raises env of Some e \<Rightarrow> Inl e | None \<Rightarrow> Inr ()))"

definition log_payment :: "ledger_env \<Rightarrow> ustr \<Rightarrow> ustr \<Rightarrow> zstate \<Rightarrow> zstate" where
  "log_payment env txn_id amount s =
     (case sheet env of
        Inl e \<Rightarrow> log_line ERROR (Failed_to_log_payment e) s
      | Inr _ \<Rightarrow>
          (case tz_mumbai (zone_db env) of
             Inl e \<Rightarrow> log_line ERROR (Failed_to_log_payment e) s
           | Inr _ \<Rightarrow>
               (case append_row_raises env of
                  Some e \<Rightarrow> log_line ERROR (Failed_to_log_payment e) s
                | None \<Rightarrow>
                    log_line INFO (Logged_to_sheets txn_id)
                      (s\<lparr>sheet_rows := sheet_rows s @ [(txn_id, amount, now_date env, now_time env)],
                         seen_txn_ids := insert txn_id (seen_txn_ids s)\<rparr>))))"





definition env_append_fails :: ledger_env where
  "env_append_fails = \<lparr>gsheet_url = Some ''https://docs.example/sheet'', creds_is_file = True,
      open_sheet_raises = None, zone_db = (\<lambda>key. True),
      append_row_raises = Some (OtherException ''APIError''),
      now_date = ustr ''2025-01-01'', now_time = ustr ''10:00:00''\<rparr>"

section \<open>The web backend of \<open>main.py\<close>\<close>

subsection \<open>Paths (the POSIX versions of \<open>os.path\<close>)\<close>

definition slash :: nat where
  "slash = of_char CHR ''/''"

definition dot :: nat where
  "dot = of_char CHR ''.''"

text \<open>\<open>os.path.basename\<close>: what follows the last slash.\<close>

definition basename :: "ustr \<Rightarrow> ustr" where
  "basename p = rev (takeWhile (\<lambda>c. c \<noteq> slash) (rev p))"


text \<open>
  \<open>os.path.splitext\<close>, the extension: from the last dot of the base name, unless only
  dots come before it.
\<close>

definition splitext_ext :: "ustr \<Rightarrow> ustr" where
  "splitext_ext p =
     (let b = basename p in
      if dot \<notin> set b then []
      else (let e = dot # rev (takeWhile (\<lambda>c. c \<noteq> dot) (rev b));
                stem = take (length b - length e) b
            in if list_all (\<lambda>c. c = dot) stem then [] else e))"








subsection \<open>Cloning and the ingest endpoint\<close>

datatype web_exn =
    ValueError string
  | Exception string
  | FileNotFound string
  | AttributeError string
  | HTTPException nat web_exn

text \<open>\<open>HTTPException code e\<close> is the exception with that status code whose detail is the
  text of \<open>e\<close>. The external commands that were run are recorded as events.\<close>

datatype event = Rmtree ustr | Git_clone ustr ustr

text \<open>What running \<open>git\<close> gives: the program is missing, or it exits with a return code and
  its error output.\<close>

datatype git_result = Git_not_installed | Git_exit int string

text \<open>A text between apostrophes.\<close>

definition quoted :: "string \<Rightarrow> string" where
  "quoted s = CHR 0x27 # s @ [CHR 0x27]"

definition security_error :: string where
  "security_error = ''Security Error: Only '' @ quoted ''https://github.com/'' @ '' URLs are allowed.''"

definition clone_github_repo ::
  "git_result \<Rightarrow> ustr \<Rightarrow> ustr \<Rightarrow> (web_exn + ustr) \<times> event list" where
  "clone_github_repo git url session_id =
     (let target_dir = ustr ''cloned_repo_'' @ session_id;
          cleaned = [Rmtree target_dir]
      in if \<not> prefix (ustr ''https://github.com/'') url then
           (Inl (ValueError security_error), cleaned)
         else
           (case git of
              Git_not_installed \<Rightarrow> (Inl (Exception ''Git is not installed.''), cleaned)
            | Git_exit rc stderr \<Rightarrow>
                if rc \<noteq> 0 then
                  (Inl (Exception (''Git Clone Failed: '' @ stderr)),
                   cleaned @ [Git_clone url target_dir])
                else (Inr target_dir, cleaned @ [Git_clone url target_dir])))"

text \<open>
  \<open>ingest_endpoint\<close>. The request carries the session and the optional \<open>data\<close>. What
  follows the clone (building the context, the upload, the wait) is the parameter
  \<open>rest\<close>. The whole body is inside \<open>try ... except Exception as e\<close>, whose handler
  raises the exception with status 500.
\<close>

record session_request =
  session_id :: ustr
  data :: "ustr option"

definition ingest_body ::
  "git_result \<Rightarrow> (ustr \<Rightarrow> web_exn + ustr \<times> nat) \<Rightarrow> session_request \<Rightarrow> web_exn + ustr \<times> nat" where
  "ingest_body git rest req =
     (case data req of
        None \<Rightarrow> Inl (AttributeError (quoted ''NoneType'' @ '' object has no attribute '' @ quoted ''startswith''))
      | Some target \<Rightarrow>
          if prefix (ustr ''http'') target then
            (case fst (clone_github_repo git target (session_id req)) of
               Inl (ValueError ve) \<Rightarrow> Inl (HTTPException 400 (ValueError ve))
             | Inl e \<Rightarrow> Inl e
             | Inr cloned \<Rightarrow> rest cloned)
          else rest target)"

definition ingest_endpoint ::
  "git_result \<Rightarrow> (ustr \<Rightarrow> web_exn + ustr \<times> nat) \<Rightarrow> session_request \<Rightarrow> web_exn + ustr \<times> nat" where
  "ingest_endpoint git rest req =
     (case ingest_body git rest req of
        Inl e \<Rightarrow> Inl (HTTPException 500 e)
      | Inr success \<Rightarrow> Inr success)"

subsection \<open>The context blob\<close>

definition IGNORE_DIRS :: "ustr list" where
  "IGNORE_DIRS = map ustr [''.git'', ''__pycache__'', ''node_modules'', ''venv'', ''env'',
     ''.idea'', ''.vscode'', ''dist'', ''build'']"

definition ALLOWED_EXTENSIONS :: "ustr list" where
  "ALLOWED_EXTENSIONS = map ustr [''.py'', ''.js'', ''.ts'', ''.jsx'', ''.tsx'', ''.html'',
     ''.css'', ''.java'', ''.cpp'', ''.md'', ''.json'', ''.sql'', ''.yaml'', ''.yml'', ''.sh'',
     ''.rb'', ''.go'', ''.rs'', ''.php'', ''.cs'', ''.swift'', ''.kt'']"

definition MAX_SIZE :: nat where
  "MAX_SIZE = 2 * 1024 * 1024"

text \<open>
  A directory: its name, its files in the order \<open>os.walk\<close> lists them, and its
  subdirectories. A file has a name and its text, or no text when opening or decoding it
  raises.
\<close>

datatype tree = Dir (dname: ustr) (dfiles: "(ustr \<times> ustr option) list") (dsubs: "tree list")

text \<open>\<open>os.walk\<close>, top down, with the ignored directories pruned: the file lists of the
  directories in the order they are visited.\<close>

fun walk :: "tree \<Rightarrow> (ustr \<times> ustr option) list list" where
  "walk (Dir name files subs) =
     files # concat (map walk (filter (\<lambda>t. dname t \<notin> set IGNORE_DIRS) subs))"

record blob =
  content :: ustr
  file_count :: nat
  current_size :: nat

definition text_chunk :: "ustr \<Rightarrow> ustr \<Rightarrow> ustr" where
  "text_chunk file file_content =
     [10, 10] @ ustr ''--- FILE: '' @ file @ ustr '' ---'' @ [10] @ file_content
       @ [10] @ ustr ''--- END FILE ---'' @ [10]"

text \<open>The loop over the files of one directory; \<open>break\<close> leaves this loop only.\<close>

fun files_loop :: "(ustr \<times> ustr option) list \<Rightarrow> blob \<Rightarrow> blob" where
  "files_loop [] c = c"
| "files_loop ((file, text) # files) c =
     (if splitext_ext file \<in> set ALLOWED_EXTENSIONS then
        (case text of
           None \<Rightarrow> files_loop files c
         | Some file_content \<Rightarrow>
             if current_size c + length (text_chunk file file_content) > MAX_SIZE then c
             else files_loop files
                    (c\<lparr>content := content c @ text_chunk file file_content,
                       current_size := current_size c + length (text_chunk file file_content),
                       file_count := file_count c + 1\<rparr>))
      else files_loop files c)"

datatype root = Missing | Not_a_directory | Directory tree

text \<open>\<open>create_context\<close>: the file count, the name of the context file and what is written
  to it.\<close>

definition create_context :: "root \<Rightarrow> ustr \<Rightarrow> web_exn + nat \<times> ustr \<times> ustr" where
  "create_context root_path session =
     (case root_path of
        Missing \<Rightarrow> Inl (FileNotFound ''Path not found.'')
      | _ \<Rightarrow>
          (let start = \<lparr>content = [], file_count = 0, current_size = 0\<rparr>;
               dirs = (case root_path of Directory t \<Rightarrow> walk t | _ \<Rightarrow> []);
               c = foldl (\<lambda>c files. files_loop files c) start dirs;
               ctx_filename = ustr ''repo_context.txt_'' @ session @ ustr ''.txt''
           in Inr (file_count c, ctx_filename, content c)))"

text \<open>A small repository: a source file, a binary file, and an ignored directory.\<close>

definition small_repo :: tree where
  "small_repo = Dir (ustr ''repo'') [(ustr ''a.py'', Some (ustr ''x = 1'')), (ustr ''b.bin'', None)]
     [Dir (ustr ''.git'') [(ustr ''c.py'', Some (ustr ''y''))] []]"

section \<open>The publisher \<open>send_mqtt\<close> of \<open>zenorc.py\<close>\<close>

text \<open>
  What one attempt meets. Either creating or configuring the client or \<open>client.connect\<close>
  raises; or the connection is made and the network loop started, but no acknowledgment
  arrives within the ten seconds of \<open>connected.wait\<close>; or the acknowledgment arrives and
  \<open>client.publish\<close> returns an error code (given by its text) or success (with the
  message identifier). \<open>still_connected\<close> is what \<open>client.is_connected()\<close> returns in the
  \<open>finally\<close> clause.
\<close>

datatype behaviour =
    Client_raises exn
  | Connect_raises exn
  | No_acknowledgment
  | Publish_fails string
  | Publish_succeeds nat

record attempt_world =
  behaviour :: behaviour
  still_connected :: bool

text \<open>The calls made on the client of an attempt that returned (clients are numbered by
  the attempt that created them), the sleeps and the log lines.\<close>

datatype mqtt_event =
    New_client int
  | Connect int
  | Loop_start int
  | On_connect int
  | Publish int
  | Published nat
  | Attempt_failed int exn
  | Sleep int
  | Loop_stop int
  | Disconnect int
  | Disconnected

text \<open>
  The body of \<open>try\<close>: its result, the binding of the local \<open>client\<close> after it (\<open>None\<close>
  when the name is not bound) and the calls made. When \<open>mqtt.Client\<close> raises, \<open>client\<close>
  keeps the binding of the previous attempt.
\<close>

definition try_body :: "behaviour \<Rightarrow> int \<Rightarrow> int option \<Rightarrow> (exn + unit) \<times> int option \<times> mqtt_event list" where
  "try_body b attempt client =
     (case b of
        Client_raises e \<Rightarrow> (Inl e, client, [])
      | Connect_raises e \<Rightarrow> (Inl e, Some attempt, [New_client attempt])
      | No_acknowledgment \<Rightarrow>
          (Inl (TimeoutError ''MQTT connection timed out''), Some attempt,
           [New_client attempt, Connect attempt, Loop_start attempt])
      | Publish_fails code \<Rightarrow>
          (Inl (ConnectionError (''Publish failed with code: '' @ code)), Some attempt,
           [New_client attempt, Connect attempt, Loop_start attempt, On_connect attempt,
            Publish attempt])
      | Publish_succeeds mid \<Rightarrow>
          (Inr (), Some attempt,
           [New_client attempt, Connect attempt, Loop_start attempt, On_connect attempt,
            Publish attempt, Published mid]))"

text \<open>The \<open>finally\<close> clause: the client is stopped and disconnected only when the name is
  bound and \<open>client.is_connected()\<close> holds.\<close>

definition finally_clause :: "int option \<Rightarrow> bool \<Rightarrow> mqtt_event list" where
  "finally_clause client is_connected =
     (case client of
        None \<Rightarrow> []
      | Some c \<Rightarrow> if is_connected then [Loop_stop c, Disconnect c, Disconnected] else [])"

text \<open>
  The loop over the attempts. A successful attempt returns \<open>True\<close> through the \<open>finally\<close>
  clause; a failed one runs the handler (a warning, and the delay unless the attempt is
  the last), then the \<open>finally\<close> clause, then the next attempt. After the last attempt the
  function returns \<open>False\<close>.
\<close>

fun attempts ::
  "(int \<Rightarrow> attempt_world) \<Rightarrow> int \<Rightarrow> int \<Rightarrow> int list \<Rightarrow> int option \<Rightarrow> bool \<times> mqtt_event list" where
  "attempts world max_retries retry_delay [] client = (False, [])"
| "attempts world max_retries retry_delay (attempt # later) client =
     (case try_body (behaviour (world attempt)) attempt client of
        (Inr _, client', calls) \<Rightarrow>
          (True, calls @ finally_clause client' (still_connected (world attempt)))
      | (Inl e, client', calls) \<Rightarrow>
          (let handler = Attempt_failed attempt e # (if attempt < max_retries then [Sleep retry_delay] else []);
               (ok, rest) = attempts world max_retries retry_delay later client'
           in (ok, calls @ handler @ finally_clause client' (still_connected (world attempt)) @ rest)))"

definition send_mqtt :: "(int \<Rightarrow> attempt_world) \<Rightarrow> int \<Rightarrow> int \<Rightarrow> bool \<times> mqtt_event list" where
  "send_mqtt world max_retries retry_delay = attempts world max_retries retry_delay [1..max_retries] None"

text \<open>
  Two brokers for evaluation. The first accepts the connection of the first attempt and
  never acknowledges it, then behaves well. The second refuses two connections, then
  behaves well.
\<close>

definition silent_then_well :: "int \<Rightarrow> attempt_world" where
  "silent_then_well attempt =
     (if attempt = 1 then \<lparr>behaviour = No_acknowledgment, still_connected = False\<rparr>
      else \<lparr>behaviour = Publish_succeeds 1, still_connected = True\<rparr>)"

definition refuses_twice :: "int \<Rightarrow> attempt_world" where
  "refuses_twice attempt =
     (if attempt < 3 then \<lparr>behaviour = Connect_raises (OtherException ''Connection refused''),
                            still_connected = False\<rparr>
      else \<lparr>behaviour = Publish_succeeds 1, still_connected = True\<rparr>)"

section \<open>The two threads of \<open>zenorc.py\<close>: \<open>main_loop\<close> and \<open>processor\<close>\<close>

text \<open>
  \<open>start\<close> runs one thread for \<open>main_loop\<close> (the producer) and one for \<open>processor\<close> (the
  consumer) over the shared \<open>queue\<close> and \<open>status\<close>. Each statement that reads or writes
  them is one step (a dictionary store, \<open>deque.append\<close> and \<open>deque.popleft\<close> are atomic
  in CPython), and the steps of the two threads interleave in any order. A thread is at
  one of these places:
\<close>

datatype producer_at =
    Polling
  | Checked ustr
  | Marked ustr
  | Logged ustr
  | Appended ustr

datatype consumer_at =
    Waiting
  | Ready
  | Popped ustr
  | Sending ustr
  | Sent ustr bool
  | Crashed

record threads =
  shared :: zstate
  producer :: producer_at
  consumer :: consumer_at

text \<open>
  A step of the producer. At \<open>Polling\<close> it takes what \<open>poll_email\<close> returned and tests
  \<open>txn_id and txn_id not in status\<close>; then come \<open>status[txn_id] = "Queued"\<close>,
  \<open>log_payment(txn_id)\<close>, \<open>queue.append(txn_id)\<close> and the log line with \<open>len(queue)\<close>.
\<close>

definition producer_step :: "ledger_env \<Rightarrow> ustr option \<Rightarrow> threads \<Rightarrow> threads" where
  "producer_step env polled c =
     (let s = shared c in
      case producer c of
        Polling \<Rightarrow>
          (case polled of
             None \<Rightarrow> c
           | Some txn_id \<Rightarrow>
               if txn_id \<noteq> [] \<and> status s txn_id = None then c\<lparr>producer := Checked txn_id\<rparr> else c)
      | Checked txn_id \<Rightarrow>
          c\<lparr>shared := s\<lparr>status := (status s)(txn_id \<mapsto> Queued)\<rparr>, producer := Marked txn_id\<rparr>
      | Marked txn_id \<Rightarrow>
          c\<lparr>shared := log_payment env txn_id (ustr ''5'') s, producer := Logged txn_id\<rparr>
      | Logged txn_id \<Rightarrow>
          c\<lparr>shared := s\<lparr>queue := queue s @ [txn_id]\<rparr>, producer := Appended txn_id\<rparr>
      | Appended txn_id \<Rightarrow>
          c\<lparr>shared := log_line INFO (Queued_message txn_id (length (queue s))) s,
            producer := Polling\<rparr>)"

text \<open>
  A step of the consumer, given the clock and the result of \<open>send_mqtt\<close>. At \<open>Waiting\<close>
  it tests the queue and the cooldown and sleeps, or goes on to \<open>queue.popleft()\<close>, which
  raises on an empty queue; then come \<open>status[txn_id] = "Processing"\<close>, \<open>send_mqtt()\<close>,
  and the final status with the write of \<open>last_processed\<close>.
\<close>

definition consumer_step :: "int \<Rightarrow> rat \<Rightarrow> bool \<Rightarrow> threads \<Rightarrow> threads" where
  "consumer_step cooldown clock ok c =
     (let s = shared c in
      case consumer c of
        Waiting \<Rightarrow>
          if queue s = [] then c
          else if clock - last_processed s < of_int cooldown then
            c\<lparr>shared := log_line INFO
                 (Cooldown_active (py_int (of_int cooldown - (clock - last_processed s)))) s\<rparr>
          else c\<lparr>consumer := Ready\<rparr>
      | Ready \<Rightarrow>
          (case queue s of
             [] \<Rightarrow> c\<lparr>consumer := Crashed\<rparr>
           | txn_id # rest \<Rightarrow> c\<lparr>shared := s\<lparr>queue := rest\<rparr>, consumer := Popped txn_id\<rparr>)
      | Popped txn_id \<Rightarrow>
          c\<lparr>shared := log_line INFO (Processing_message txn_id)
                         (s\<lparr>status := (status s)(txn_id \<mapsto> Processing)\<rparr>),
            consumer := Sending txn_id\<rparr>
      | Sending txn_id \<Rightarrow> c\<lparr>consumer := Sent txn_id ok\<rparr>
      | Sent txn_id sent_ok \<Rightarrow>
          c\<lparr>shared := (log_line INFO (Completed_message sent_ok txn_id)
                          (s\<lparr>status := (status s)(txn_id \<mapsto> (if sent_ok then Completed else Failed))\<rparr>))
                        \<lparr>last_processed := clock\<rparr>,
            consumer := Waiting\<rparr>
      | Crashed \<Rightarrow> c)"

text \<open>An interleaving is a list of actions: which thread runs next, and what it reads
  from outside.\<close>

datatype action = Producer_runs "ustr option" | Consumer_runs rat bool

definition step :: "ledger_env \<Rightarrow> int \<Rightarrow> action \<Rightarrow> threads \<Rightarrow> threads" where
  "step env cooldown a c =
     (case a of
        Producer_runs polled \<Rightarrow> producer_step env polled c
      | Consumer_runs clock ok \<Rightarrow> consumer_step cooldown clock ok c)"

fun interleave :: "ledger_env \<Rightarrow> int \<Rightarrow> action list \<Rightarrow> threads \<Rightarrow> threads" where
  "interleave env cooldown [] c = c"
| "interleave env cooldown (a # later) c = interleave env cooldown later (step env cooldown a c)"

text \<open>The state in which \<open>start\<close> starts the threads: the identifiers read from the sheet,
  an empty queue and an empty \<open>status\<close>.\<close>

definition started :: "ustr set \<Rightarrow> (ustr \<times> ustr \<times> ustr \<times> ustr) list \<Rightarrow> threads" where
  "started seen rows =
     \<lparr>shared = \<lparr>seen_txn_ids = seen, queue = [], status = Map.empty, last_processed = 0,
                 sheet_rows = rows, logs = []\<rparr>,
      producer = Polling, consumer = Waiting\<rparr>"

text \<open>
  The life of a status, in the words of the specification: an identifier enters as
  \<open>Queued\<close>, goes from \<open>Queued\<close> to \<open>Processing\<close>, and from \<open>Processing\<close> to \<open>Completed\<close> or
  \<open>Failed\<close>. \<open>next_status\<close> is one such move, \<open>later_status\<close> one or more of them.
\<close>

fun next_status :: "txn_status option \<Rightarrow> txn_status option \<Rightarrow> bool" where
  "next_status None (Some Queued) = True"
| "next_status (Some Queued) (Some Processing) = True"
| "next_status (Some Processing) (Some Completed) = True"
| "next_status (Some Processing) (Some Failed) = True"
| "next_status _ _ = False"

fun status_rank :: "txn_status option \<Rightarrow> nat" where
  "status_rank None = 0"
| "status_rank (Some Queued) = 1"
| "status_rank (Some Processing) = 2"
| "status_rank (Some Completed) = 3"
| "status_rank (Some Failed) = 3"

definition later_status :: "txn_status option \<Rightarrow> txn_status option \<Rightarrow> bool" where
  "later_status a b = (status_rank a < status_rank b)"

text \<open>
  What holds of the threads at every moment: the queue has no identifier twice, and its
  identifiers are \<open>Queued\<close>; the identifier the consumer holds is out of the queue, \<open>Queued\<close>
  until it is marked and \<open>Processing\<close> after; the identifier the producer holds is not
  in \<open>status\<close> before it is marked, and after that it is \<open>Queued\<close>, not yet in the queue
  and not held by the consumer; the consumer is about to pop only a queue that is not
  empty.
\<close>

definition held :: "consumer_at \<Rightarrow> ustr option" where
  "held place = (case place of Popped t \<Rightarrow> Some t | Sending t \<Rightarrow> Some t | Sent t ok \<Rightarrow> Some t | _ \<Rightarrow> None)"

definition fresh :: "threads \<Rightarrow> ustr \<Rightarrow> bool" where
  "fresh c t = (status (shared c) t = Some Queued \<and> t \<notin> set (queue (shared c)) \<and> held (consumer c) \<noteq> Some t)"

definition invariant :: "threads \<Rightarrow> bool" where
  "invariant c =
     (distinct (queue (shared c))
      \<and> list_all (\<lambda>t. status (shared c) t = Some Queued) (queue (shared c))
      \<and> (case consumer c of
            Ready \<Rightarrow> queue (shared c) \<noteq> []
          | Popped t \<Rightarrow> status (shared c) t = Some Queued \<and> t \<notin> set (queue (shared c))
          | Sending t \<Rightarrow> status (shared c) t = Some Processing \<and> t \<notin> set (queue (shared c))
          | Sent t ok \<Rightarrow> status (shared c) t = Some Processing \<and> t \<notin> set (queue (shared c))
          | Waiting \<Rightarrow> True
          | Crashed \<Rightarrow> False)
      \<and> (case producer c of
            Polling \<Rightarrow> True
          | Checked t \<Rightarrow> status (shared c) t = None
          | Marked t \<Rightarrow> fresh c t
          | Logged t \<Rightarrow> fresh c t
          | Appended t \<Rightarrow> True))"

text \<open>An interleaving for evaluation: the producer takes one identifier through its steps,
  then the consumer passes the cooldown test and pops it.\<close>

definition one_payment :: "action list" where
  "one_payment =
     [Producer_runs (Some (ustr ''12345678'')), Producer_runs None, Producer_runs None,
      Producer_runs None, Producer_runs None, Consumer_runs 100 True, Consumer_runs 100 True]"

section \<open>Verification\<close>

declare str_nat.simps [simp del]

lemma str_nat_digit: "n < 10 \<Longrightarrow> str_nat n = [48 + n]"
  by (simp add: str_nat.simps)

lemma str_nat_more: "\<not> n < 10 \<Longrightarrow> str_nat n = str_nat (n div 10) @ [48 + n mod 10]"
  by (subst str_nat.simps) simp

lemma le_takeWhile_iff:
  "k \<le> length (takeWhile P xs) \<longleftrightarrow> k \<le> length xs \<and> list_all P (take k xs)"
proof (induction xs arbitrary: k)
  case Nil
  then show ?case by simp
next
  case (Cons x xs)
  then show ?case by (cases k) auto
qed

lemma advance_mem:
  "(b', a', g') \<in> (\<lambda>k. advance k (b, a, g)) ` {n ..< Suc (run_length U cs a)} \<longleftrightarrow>
     (\<exists>m. a = m @ a' \<and> b' = rev m @ b \<and> g' = g \<and> n \<le> length m \<and> list_all (cset_match U cs) m)"
  (is "?L \<longleftrightarrow> ?R")
proof
  assume ?L
  then obtain k where k: "n \<le> k" "k \<le> run_length U cs a" and e: "(b', a', g') = advance k (b, a, g)"
    by auto
  from k(2) have "k \<le> length a" "list_all (cset_match U cs) (take k a)"
    by (simp_all add: run_length_def le_takeWhile_iff)
  with k(1) e show ?R
    by (intro exI [of _ "take k a"]) (simp add: advance_def)
next
  assume ?R
  then obtain m where m: "a = m @ a'" "b' = rev m @ b" "g' = g" "n \<le> length m"
    "list_all (cset_match U cs) m" by blast
  then have "length m \<le> run_length U cs a"
    by (simp add: run_length_def le_takeWhile_iff)
  with m show ?L
    by (intro image_eqI [of _ _ "length m"]) (simp_all add: advance_def)
qed

lemma run_sound:
  "(b', a', g') \<in> set (run U r (b, a, g)) \<Longrightarrow>
     \<exists>m. a = m @ a' \<and> b' = rev m @ b \<and> sem U r b m a'"
proof (induction r arbitrary: b a g b' a' g')
  case (Seq r1 r2)
  then obtain b1 a1 g1 where 1: "(b1, a1, g1) \<in> set (run U r1 (b, a, g))"
    and 2: "(b', a', g') \<in> set (run U r2 (b1, a1, g1))" by auto
  from Seq.IH(1) [OF 1] obtain m1 where m1: "a = m1 @ a1" "b1 = rev m1 @ b" "sem U r1 b m1 a1" by blast
  from Seq.IH(2) [OF 2] obtain m2 where m2: "a1 = m2 @ a'" "b' = rev m2 @ b1" "sem U r2 b1 m2 a'" by blast
  from m1 m2 show ?case
    by (intro exI [of _ "m1 @ m2"]) auto
next
  case (Many cs)
  then have "(b', a', g') \<in> (\<lambda>k. advance k (b, a, g)) ` {0 ..< Suc (run_length U cs a)}"
    by (simp del: upt_Suc)
  then show ?case unfolding advance_mem by auto
next
  case (AtLeast n cs)
  then have "(b', a', g') \<in> (\<lambda>k. advance k (b, a, g)) ` {n ..< Suc (run_length U cs a)}"
    by (simp del: upt_Suc)
  then show ?case unfolding advance_mem by auto
next
  case (Group r)
  then obtain g0 where "(b', a', g0) \<in> set (run U r (b, a, g))" by auto
  from Group.IH [OF this] show ?case by simp
next
  case (Alt r1 r2)
  then have "(b', a', g') \<in> set (run U r1 (b, a, g)) \<or> (b', a', g') \<in> set (run U r2 (b, a, g))"
    by simp
  then show ?case using Alt.IH by fastforce
next
  case (Opt r)
  then have "(b', a', g') \<in> set (run U r (b, a, g)) \<or> (b', a', g') = (b, a, g)"
    by auto
  then show ?case using Opt.IH by fastforce
qed (auto split: list.splits if_splits)

lemma run_complete:
  "sem U r b m a' \<Longrightarrow> \<exists>g'. (rev m @ b, a', g') \<in> set (run U r (b, m @ a', g))"
proof (induction r arbitrary: b m a' g)
  case (Seq r1 r2)
  then obtain m1 m2 where m: "m = m1 @ m2" "sem U r1 b m1 (m2 @ a')" "sem U r2 (rev m1 @ b) m2 a'"
    by auto
  from Seq.IH(1) [OF m(2), of g] obtain g1 where
    1: "(rev m1 @ b, m2 @ a', g1) \<in> set (run U r1 (b, m1 @ m2 @ a', g))" by blast
  from Seq.IH(2) [OF m(3), of g1] obtain g2 where
    2: "(rev m2 @ rev m1 @ b, a', g2) \<in> set (run U r2 (rev m1 @ b, m2 @ a', g1))" by blast
  from 1 2 m(1) show ?case by (auto intro!: exI [of _ g2] bexI [OF _ 1])
next
  case (Many cs)
  then have "(rev m @ b, a', g) \<in> (\<lambda>k. advance k (b, m @ a', g)) ` {0 ..< Suc (run_length U cs (m @ a'))}"
    unfolding advance_mem by auto
  then show ?case by (intro exI [of _ g]) (simp del: upt_Suc)
next
  case (AtLeast n cs)
  then have "(rev m @ b, a', g) \<in> (\<lambda>k. advance k (b, m @ a', g)) ` {n ..< Suc (run_length U cs (m @ a'))}"
    unfolding advance_mem by auto
  then show ?case by (intro exI [of _ g]) (simp del: upt_Suc)
next
  case (Group r)
  then have "sem U r b m a'" by simp
  from Group.IH [OF this, of g] obtain g0 where "(rev m @ b, a', g0) \<in> set (run U r (b, m @ a', g))" by blast
  then show ?case by (force simp: image_iff)
next
  case (Opt r)
  show ?case
  proof (cases "sem U r b m a'")
    case True
    from Opt.IH [OF this, of g] show ?thesis by auto
  next
    case False
    with Opt.prems have "m = []" by simp
    then show ?thesis by (intro exI [of _ g]) simp
  qed
next
  case (Alt r1 r2)
  then have "sem U r1 b m a' \<or> sem U r2 b m a'" by simp
  then show ?case using Alt.IH(1) [of b m a' g] Alt.IH(2) [of b m a' g] by auto
qed auto

lemma search_from_iff:
  "search_from U r b a \<noteq> None \<longleftrightarrow>
     (\<exists>p m post. a = p @ m @ post \<and> sem U r (rev p @ b) m post)"
proof (induction a arbitrary: b)
  case Nil
  show ?case
  proof
    assume "search_from U r b [] \<noteq> None"
    then obtain s ss where "run U r (b, [], None) = s # ss"
      by (auto split: list.splits)
    then have "s \<in> set (run U r (b, [], None))" by simp
    then show "\<exists>p m post. [] = p @ m @ post \<and> sem U r (rev p @ b) m post"
      using run_sound [of "fst s" "fst (snd s)" "snd (snd s)" U r b "[]" None] by auto
  next
    assume "\<exists>p m post. [] = p @ m @ post \<and> sem U r (rev p @ b) m post"
    then have "sem U r b [] []" by auto
    from run_complete [OF this, of None] show "search_from U r b [] \<noteq> None"
      by (auto split: list.splits)
  qed
next
  case (Cons c a)
  show ?case
  proof (cases "run U r (b, c # a, None)")
    case (Cons s ss)
    then have "s \<in> set (run U r (b, c # a, None))" by simp
    then have "\<exists>m. c # a = m @ fst (snd s) \<and> sem U r b m (fst (snd s))"
      using run_sound [of "fst s" "fst (snd s)" "snd (snd s)" U r b "c # a" None] by auto
    then obtain m where "c # a = [] @ m @ fst (snd s)" "sem U r (rev [] @ b) m (fst (snd s))"
      by auto
    then have "\<exists>p m post. c # a = p @ m @ post \<and> sem U r (rev p @ b) m post" by blast
    with Cons show ?thesis by simp
  next
    case Nil
    have no0: "\<not> sem U r b m post" if "c # a = m @ post" for m post
      using run_complete [of U r b m post None] that Nil by auto
    have "(\<exists>p m post. c # a = p @ m @ post \<and> sem U r (rev p @ b) m post) \<longleftrightarrow>
          (\<exists>p m post. a = p @ m @ post \<and> sem U r (rev p @ c # b) m post)" (is "?L \<longleftrightarrow> ?R")
    proof
      assume ?L
      then obtain p m post where e: "c # a = p @ m @ post" "sem U r (rev p @ b) m post" by blast
      with no0 have "p \<noteq> []" by auto
      then obtain p' where "p = c # p'" using e(1) by (cases p) auto
      with e show ?R by auto
    next
      assume ?R
      then obtain p m post where "a = p @ m @ post" "sem U r (rev p @ c # b) m post" by blast
      then have "c # a = (c # p) @ m @ post" "sem U r (rev (c # p) @ b) m post" by auto
      then show ?L by blast
    qed
    with Nil Cons.IH [of "c # b"] show ?thesis by simp
  qed
qed

lemma re_search_iff:
  "re_search U r body \<noteq> None \<longleftrightarrow>
     (\<exists>pre m post. body = pre @ m @ post \<and> sem U r (rev pre) m post)"
  unfolding re_search_def using search_from_iff [of U r "[]" body] by simp

lemma sem_Seq_Atom:
  "sem U (Seq (Atom cs) r) b m a \<longleftrightarrow>
     (\<exists>c m2. m = c # m2 \<and> cset_match U cs c \<and> sem U r (c # b) m2 a)"
  (is "?L \<longleftrightarrow> ?R")
proof
  assume ?L
  then show ?R by auto
next
  assume ?R
  then obtain c m2 where "m = [c] @ m2" "cset_match U cs c" "sem U r (rev [c] @ b) m2 a"
    by auto
  then show ?L unfolding sem.simps by blast
qed

lemma sem_lits: "sem U (lits p) b m a \<longleftrightarrow> ci_text U p m"
proof (induction p arbitrary: b m)
  case Nil
  then show ?case by (simp add: ci_text_def ustr_def)
next
  case (Cons c p)
  show ?case
    by (cases m) (auto simp: sem_Seq_Atom Cons.IH ci_text_def ustr_def ch_def simp del: sem.simps)
qed

lemma ci_text_Cons:
  "ci_text U (p # ps) t \<longleftrightarrow> (\<exists>c t'. t = c # t' \<and> uni_ci U (of_char p) c \<and> ci_text U ps t')"
  by (cases t) (auto simp: ci_text_def ustr_def)

lemma ci_text_Nil: "ci_text U [] t \<longleftrightarrow> t = []"
  by (simp add: ci_text_def ustr_def)

lemma ci_text_append:
  "ci_text U (p @ q) t \<longleftrightarrow> (\<exists>t1 t2. t = t1 @ t2 \<and> ci_text U p t1 \<and> ci_text U q t2)"
proof (induction p arbitrary: t)
  case Nil
  show ?case by (simp add: ci_text_Nil)
next
  case (Cons c p)
  show ?case
  proof
    assume "ci_text U ((c # p) @ q) t"
    then obtain d t' where t: "t = d # t'" "uni_ci U (of_char c) d" "ci_text U (p @ q) t'"
      by (auto simp: ci_text_Cons)
    from t(3) obtain t1 t2 where "t' = t1 @ t2" "ci_text U p t1" "ci_text U q t2"
      unfolding Cons.IH by blast
    with t have "t = (d # t1) @ t2" "ci_text U (c # p) (d # t1)" "ci_text U q t2"
      by (auto simp: ci_text_Cons)
    then show "\<exists>t1 t2. t = t1 @ t2 \<and> ci_text U (c # p) t1 \<and> ci_text U q t2" by blast
  next
    assume "\<exists>t1 t2. t = t1 @ t2 \<and> ci_text U (c # p) t1 \<and> ci_text U q t2"
    then obtain d t1 t2 where "t = (d # t1) @ t2" "uni_ci U (of_char c) d" "ci_text U p t1"
      "ci_text U q t2" by (auto simp: ci_text_Cons)
    then show "ci_text U ((c # p) @ q) t"
      using Cons.IH [of "t1 @ t2"] by (auto simp: ci_text_Cons)
  qed
qed

lemma cset_match_WS: "cset_match U WS = uni_space U"
  by (rule ext) simp

lemma cset_match_DIG: "cset_match U DIG = uni_digit U"
  by (rule ext) simp

lemma cset_match_sep:
  "cset_match U (OneOf (ustr '', '')) =
     (\<lambda>c. uni_ci U (of_char CHR '','') c \<or> uni_ci U (of_char CHR '' '') c)"
  by (rule ext) (simp add: ustr_def)

lemma sem_currency:
  "sem U (Alt (Atom (Lit rupee))
           (Alt (Seq (lits ''rs'') (Opt (Atom (ch CHR ''.''))))
                (lits ''inr''))) b m a \<longleftrightarrow> currency U m"
proof -
  have dot: "ci_text U ''.'' t \<longleftrightarrow> (\<exists>c. t = [c] \<and> cset_match U (ch CHR ''.'') c)" for t
    by (auto simp: ci_text_Cons ci_text_Nil ch_def)
  have "ci_text U ''rs.'' m \<longleftrightarrow> (\<exists>t1 t2. m = t1 @ t2 \<and> ci_text U ''rs'' t1 \<and> ci_text U ''.'' t2)"
    using ci_text_append [of U "''rs''" "''.''" m] by simp
  moreover have "ci_text U ''rs'' m \<longleftrightarrow> (\<exists>t1 t2. m = t1 @ t2 \<and> ci_text U ''rs'' t1 \<and> t2 = [])"
    by simp
  ultimately have "sem U (Seq (lits ''rs'') (Opt (Atom (ch CHR ''.'')))) b m a \<longleftrightarrow>
        ci_text U ''rs'' m \<or> ci_text U ''rs.'' m"
    unfolding sem.simps(3) sem.simps(5) sem.simps(2) sem_lits dot by blast
  then show ?thesis
    unfolding sem.simps(4) sem_lits currency_def by auto
qed

lemma sem_separator:
  "sem U (Seq (Many WS) (Seq (Many (OneOf (ustr '', ''))) (Seq (Many WS) r))) b m a \<longleftrightarrow>
     (\<exists>sep m'. m = sep @ m' \<and> separator U sep \<and> sem U r (rev sep @ b) m' a)"
  (is "?L \<longleftrightarrow> ?R")
proof
  assume ?L
  then obtain s1 s2 s3 m' where e: "m = s1 @ s2 @ s3 @ m'"
    "list_all (uni_space U) s1"
    "list_all (\<lambda>c. uni_ci U (of_char CHR '','') c \<or> uni_ci U (of_char CHR '' '') c) s2"
    "list_all (uni_space U) s3" "sem U r (rev s3 @ rev s2 @ rev s1 @ b) m' a"
    unfolding sem.simps(3) sem.simps(6) cset_match_WS cset_match_sep by auto
  then have "m = (s1 @ s2 @ s3) @ m'" "separator U (s1 @ s2 @ s3)"
    "sem U r (rev (s1 @ s2 @ s3) @ b) m' a"
    by (auto simp: separator_def)
  then show ?R by blast
next
  assume ?R
  then obtain s1 s2 s3 m' where e: "m = s1 @ s2 @ s3 @ m'"
    "list_all (uni_space U) s1"
    "list_all (\<lambda>c. uni_ci U (of_char CHR '','') c \<or> uni_ci U (of_char CHR '' '') c) s2"
    "list_all (uni_space U) s3" "sem U r (rev s3 @ rev s2 @ rev s1 @ b) m' a"
    by (auto simp: separator_def)
  have 3: "sem U (Seq (Many WS) r) (rev s2 @ rev s1 @ b) (s3 @ m') a"
    unfolding sem.simps(3) sem.simps(6) cset_match_WS using e(4,5) by auto
  have 2: "sem U (Seq (Many (OneOf (ustr '', ''))) (Seq (Many WS) r)) (rev s1 @ b) (s2 @ s3 @ m') a"
    unfolding sem.simps(3) [of U "Many (OneOf (ustr '', ''))"] sem.simps(6) cset_match_sep
    using e(3) 3 by blast
  show ?L
    unfolding sem.simps(3) [of U "Many WS" "Seq (Many (OneOf (ustr '', ''))) (Seq (Many WS) r)"]
      sem.simps(6) cset_match_WS e(1)
    using e(2) 2 by blast
qed

lemma word_boundary_last:
  "xs \<noteq> [] \<Longrightarrow> word_boundary U (xs @ b) a = word_boundary U xs a"
  by (cases xs) (simp_all add: word_boundary_def is_word_at_def)

lemma sem_suffix:
  "sem U (Opt (Seq (Atom (OneOf (ustr ''.,''))) (lits ''00''))) b m a \<longleftrightarrow> decimal_suffix U m"
proof -
  have "sem U (Seq (Atom (OneOf (ustr ''.,''))) (lits ''00'')) b m a \<longleftrightarrow>
        ci_text U ''.00'' m \<or> ci_text U '',00'' m"
    unfolding sem_Seq_Atom sem_lits
    by (auto simp: ci_text_Cons [of U "CHR ''.''"] ci_text_Cons [of U "CHR '',''"] ustr_def)
  then show ?thesis
    unfolding sem.simps(5) decimal_suffix_def by blast
qed

lemma sem_tail:
  "sem U (Seq (Atom (ch CHR ''5''))
           (Seq (Opt (Seq (Atom (OneOf (ustr ''.,''))) (lits ''00''))) WordB)) b m a \<longleftrightarrow>
     (\<exists>five suf. m = five @ suf \<and> ci_text U ''5'' five \<and> decimal_suffix U suf
        \<and> word_boundary U (rev (five @ suf)) a)"
  (is "?L \<longleftrightarrow> ?R")
proof
  assume ?L
  then obtain c suf where e: "m = [c] @ suf" "uni_ci U (of_char CHR ''5'') c"
    "decimal_suffix U suf" "word_boundary U (rev suf @ c # b) a"
    unfolding sem_Seq_Atom sem.simps(3) [of U "Opt _"] sem_suffix sem.simps(9)
    by (auto simp: ch_def)
  from e(4) have "word_boundary U (rev ([c] @ suf)) a"
    using word_boundary_last [of "rev ([c] @ suf)" U b a] by simp
  moreover from e(2) have "ci_text U ''5'' [c]"
    by (simp add: ci_text_Cons ci_text_Nil)
  ultimately show ?R using e(1,3) by blast
next
  assume ?R
  then obtain five suf where e: "m = five @ suf" "ci_text U ''5'' five" "decimal_suffix U suf"
    "word_boundary U (rev (five @ suf)) a" by blast
  from e(2) obtain c where c: "five = [c]" "uni_ci U (of_char CHR ''5'') c"
    by (auto simp: ci_text_Cons ci_text_Nil)
  from e(4) c(1) have "word_boundary U (rev suf @ c # b) a"
    using word_boundary_last [of "rev ([c] @ suf)" U b a] by simp
  with e(3) have "sem U (Seq (Opt (Seq (Atom (OneOf (ustr ''.,''))) (lits ''00''))) WordB) (c # b) suf a"
    unfolding sem.simps(3) [of U "Opt _"] sem_suffix sem.simps(9) by auto
  with c e(1) show ?L
    unfolding sem_Seq_Atom by (auto simp: ch_def)
qed

lemma sem_AMT_5_RE: "sem U AMT_5_RE b m a \<longleftrightarrow> amount_phrase U m a"
  unfolding AMT_5_RE_def sem.simps(3) [of U "Alt _ _"] sem_currency sem_separator sem_tail
    amount_phrase_def
  by blast

lemma amount_search:
  "re_search U AMT_5_RE body \<noteq> None \<longleftrightarrow>
     (\<exists>pre m post. body = pre @ m @ post \<and> amount_phrase U m post)"
  unfolding re_search_iff sem_AMT_5_RE ..

text \<open>
  What \<open>_is_valid_payment\<close> computes, for every body and every table: the body contains
  \<open>credited\<close>, does not contain \<open>debited\<close>, and some part of it is a match of the
  amount pattern, which ends at a word boundary and not at the end of the number.
\<close>

lemma is_valid_payment_pattern:
  "is_valid_payment U body_lc \<longleftrightarrow>
     sublist (ustr ''credited'') body_lc \<and> \<not> sublist (ustr ''debited'') body_lc
     \<and> (\<exists>pre m post. body_lc = pre @ m @ post \<and> amount_phrase U m post)"
  unfolding is_valid_payment_def Let_def amount_search by blast

lemmas matcher_eval =
  re_search_def ustr_def ch_def python_tables_def fold_case_def rupee_def
  word_boundary_def is_word_at_def advance_def run_length_def sublist_code prefix_code

text \<open>
  Claim C1 says that classification is true only when the body matches the exact amount 5
  (with an optional decimal suffix). The pattern ends with a word boundary, and a word
  boundary also holds between the \<open>5\<close> and a comma or a full stop: the bodies
  \<open>credited rs 5,000\<close> and \<open>credited rs 5.50\<close>, whose amounts are not 5, are
  classified as valid payments of 5.
\<close>

theorem is_valid_payment_other_amounts:
  "is_valid_payment python_tables (ustr ''credited rs 5,000'')
   \<and> is_valid_payment python_tables (ustr ''credited rs 5.50'')"
  by (simp add: is_valid_payment_def AMT_5_RE_def matcher_eval)

lemma search_from_Some:
  "search_from U r b a = Some s \<Longrightarrow>
     \<exists>p rest ss. a = p @ rest \<and> run U r (rev p @ b, rest, None) = s # ss
       \<and> (\<forall>p' rest'. a = p' @ rest' \<and> length p' < length p
             \<longrightarrow> run U r (rev p' @ b, rest', None) = [])"
proof (induction a arbitrary: b)
  case Nil
  then obtain ss where "run U r (b, [], None) = s # ss"
    by (auto split: list.splits)
  then show ?case by (intro exI [of _ "[]"] exI [of _ "[]"] exI [of _ ss]) simp
next
  case (Cons c a)
  show ?case
  proof (cases "run U r (b, c # a, None)")
    case (Cons s' ss)
    with Cons.prems have "s' = s" by simp
    with Cons show ?thesis by (intro exI [of _ "[]"] exI [of _ "c # a"] exI [of _ ss]) simp
  next
    case Nil
    with Cons.prems have "search_from U r (c # b) a = Some s" by simp
    from Cons.IH [OF this] obtain p rest ss where
      e: "a = p @ rest" "run U r (rev p @ c # b, rest, None) = s # ss"
      and l: "\<And>p' rest'. a = p' @ rest' \<Longrightarrow> length p' < length p
               \<Longrightarrow> run U r (rev p' @ c # b, rest', None) = []"
      by blast
    have "run U r (rev p' @ b, rest', None) = []"
      if "c # a = p' @ rest'" "length p' < length (c # p)" for p' rest'
    proof (cases p')
      case Nil
      with that \<open>run U r (b, c # a, None) = []\<close> show ?thesis by simp
    next
      case (Cons c' q)
      with that have "a = q @ rest'" "length q < length p" "c' = c" by auto
      with l [of q rest'] Cons show ?thesis by simp
    qed
    with e show ?thesis
      by (intro exI [of _ "c # p"] exI [of _ rest] exI [of _ ss]) simp
  qed
qed

lemma concat_map_first:
  "concat (map f xs) = y # ys \<Longrightarrow> \<exists>x zs. x \<in> set xs \<and> f x = y # zs"
proof (induction xs)
  case Nil
  then show ?case by simp
next
  case (Cons x xs)
  show ?case
  proof (cases "f x")
    case Nil
    with Cons show ?thesis by auto
  next
    case (Cons z zs)
    with Cons.prems have "f x = y # zs" by simp
    then show ?thesis by auto
  qed
qed

lemma run_Seq_first:
  "run U (Seq r1 r2) s = x # xs \<Longrightarrow> \<exists>s1 ys. s1 \<in> set (run U r1 s) \<and> run U r2 s1 = x # ys"
  using concat_map_first [of "run U r2" "run U r1 s" x xs] by simp

lemma rev_upt_first:
  "rev [n ..< Suc k] = x # xs \<Longrightarrow> x = k \<and> n \<le> k"
  by (cases "n \<le> k") auto

lemma not_digit_after_run: "\<not> digit_at U (drop (run_length U DIG a) a)"
proof -
  have "drop (length (takeWhile P a)) a = dropWhile P a" for P :: "nat \<Rightarrow> bool"
    by (induction a) auto
  then have e: "drop (run_length U DIG a) a = dropWhile (uni_digit U) a"
    by (simp add: run_length_def cset_match_DIG)
  show ?thesis
  proof (cases "dropWhile (uni_digit U) a")
    case Nil
    show ?thesis unfolding e digit_at_def Nil by simp
  next
    case (Cons c cs)
    with hd_dropWhile [of "uni_digit U" a] have "\<not> uni_digit U c" by simp
    then show ?thesis unfolding e digit_at_def Cons by simp
  qed
qed

lemma run_digits_first:
  assumes "run U (Group (AtLeast n DIG)) (b, a, g) = x # xs"
  shows "\<exists>d rest. a = d @ rest \<and> x = (rev d @ b, rest, Some d) \<and> n \<le> length d
           \<and> list_all (uni_digit U) d \<and> \<not> digit_at U rest"
proof -
  let ?k = "run_length U DIG a"
  from assms obtain y ys where y: "run U (AtLeast n DIG) (b, a, g) = y # ys"
    and x: "x = (fst y, fst (snd y), Some (rev (take (length (fst y) - length b) (fst y))))"
    by (cases "run U (AtLeast n DIG) (b, a, g)") auto
  from y obtain j js where j: "rev [n ..< Suc ?k] = j # js" and yj: "y = advance j (b, a, g)"
    by (cases "rev [n ..< Suc ?k]") (auto simp del: upt_Suc)
  from rev_upt_first [OF j] have jk: "j = ?k" "n \<le> ?k" by simp_all
  have k: "?k \<le> length a" "list_all (uni_digit U) (take ?k a)"
    using le_takeWhile_iff [of ?k "cset_match U DIG" a]
    by (simp_all add: run_length_def cset_match_DIG)
  have "x = (rev (take ?k a) @ b, drop ?k a, Some (take ?k a))"
    using x yj jk(1) k(1) by (simp add: advance_def)
  with jk(2) k not_digit_after_run [of U a] show ?thesis
    by (intro exI [of _ "take ?k a"] exI [of _ "drop ?k a"]) simp
qed

lemma re_search_capture:
  assumes "re_search U (Seq H digits8) body = Some s"
  shows "\<exists>d. group1 s = Some d \<and> leftmost_capture U H body d"
proof -
  let ?r = "Seq H digits8"
  from search_from_Some [of U ?r "[]" body s] assms obtain p rest ss where
    b: "body = p @ rest" and r: "run U ?r (rev p, rest, None) = s # ss"
    and l: "\<And>p' rest'. body = p' @ rest' \<Longrightarrow> length p' < length p
              \<Longrightarrow> run U ?r (rev p', rest', None) = []"
    unfolding re_search_def by auto
  from run_Seq_first [OF r] obtain s1 ys where
    s1: "s1 \<in> set (run U H (rev p, rest, None))" and d8: "run U digits8 s1 = s # ys" by blast
  obtain b1 a1 g1 where e1: "s1 = (b1, a1, g1)" by (cases s1) auto
  from run_sound [of b1 a1 g1 U H "rev p" rest None] s1 e1 obtain h where
    h: "rest = h @ a1" "b1 = rev h @ rev p" "sem U H (rev p) h a1" by auto
  from run_digits_first [of U 8 b1 a1 g1 s ys] d8 e1 obtain d post where
    d: "a1 = d @ post" "s = (rev d @ b1, post, Some d)" "8 \<le> length d"
       "list_all (uni_digit U) d" "\<not> digit_at U post"
    unfolding digits8_def by auto
  have left: "\<not> sem U ?r (rev pre') m' post'"
    if "body = pre' @ m' @ post'" "length pre' < length p" for pre' m' post'
  proof
    assume "sem U ?r (rev pre') m' post'"
    from run_complete [OF this, of None] l [OF that] show False by auto
  qed
  have "leftmost_capture U H body d"
    unfolding leftmost_capture_def
    using b h(1,3) d(1,3,4,5) left
    by (intro exI [of _ p] exI [of _ h] exI [of _ post]) auto
  with d(2) show ?thesis by (simp add: group1_def)
qed

lemma re_search_matches: "re_search U r body \<noteq> None \<longleftrightarrow> matches U r body"
  unfolding matches_def by (rule re_search_iff)

text \<open>
  Claim C2. \<open>_extract_txn_id\<close> tries the patterns in their order. When the body matches
  the \<open>Reference\<close> pattern the result is capturing group 1 of its leftmost match: at
  least eight digits, taken as far as digits go, after a match of the part of the pattern
  before the group. When it does not, and the body matches the
  \<open>transaction reference number\<close> pattern, the result is that pattern's group. When the
  body matches neither, the result is \<open>TXN\<close> followed by the clock reading in whole
  seconds.
\<close>

theorem extract_txn_id_priority:
  "(matches U (Seq REF_HEAD digits8) body \<longrightarrow>
      (\<exists>d. extract_txn_id U now body = Some d \<and> leftmost_capture U REF_HEAD body d))
   \<and> (\<not> matches U (Seq REF_HEAD digits8) body \<and> matches U (Seq TXN_HEAD digits8) body \<longrightarrow>
      (\<exists>d. extract_txn_id U now body = Some d \<and> leftmost_capture U TXN_HEAD body d))
   \<and> (\<not> matches U (Seq REF_HEAD digits8) body \<and> \<not> matches U (Seq TXN_HEAD digits8) body \<longrightarrow>
      extract_txn_id U now body = Some (ustr ''TXN'' @ str_int (py_int now)))"
proof (intro conjI impI)
  assume "matches U (Seq REF_HEAD digits8) body"
  then obtain s where s: "re_search U (Seq REF_HEAD digits8) body = Some s"
    using re_search_matches [of U "Seq REF_HEAD digits8" body] by auto
  from re_search_capture [OF s] s
  show "\<exists>d. extract_txn_id U now body = Some d \<and> leftmost_capture U REF_HEAD body d"
    by (auto simp: extract_txn_id_def patterns_def)
next
  assume "\<not> matches U (Seq REF_HEAD digits8) body \<and> matches U (Seq TXN_HEAD digits8) body"
  then have m: "\<not> matches U (Seq REF_HEAD digits8) body" "matches U (Seq TXN_HEAD digits8) body"
    by simp_all
  from m(1) have n: "re_search U (Seq REF_HEAD digits8) body = None"
    using re_search_matches [of U "Seq REF_HEAD digits8" body] by blast
  from m(2) obtain s where s: "re_search U (Seq TXN_HEAD digits8) body = Some s"
    using re_search_matches [of U "Seq TXN_HEAD digits8" body]
    by (cases "re_search U (Seq TXN_HEAD digits8) body") auto
  from re_search_capture [OF s] s n
  show "\<exists>d. extract_txn_id U now body = Some d \<and> leftmost_capture U TXN_HEAD body d"
    by (auto simp: extract_txn_id_def patterns_def)
next
  assume "\<not> matches U (Seq REF_HEAD digits8) body \<and> \<not> matches U (Seq TXN_HEAD digits8) body"
  then have "re_search U (Seq REF_HEAD digits8) body = None"
    "re_search U (Seq TXN_HEAD digits8) body = None"
    using re_search_matches [of U "Seq REF_HEAD digits8" body]
      re_search_matches [of U "Seq TXN_HEAD digits8" body] by blast+
  then show "extract_txn_id U now body = Some (ustr ''TXN'' @ str_int (py_int now))"
    by (simp add: extract_txn_id_def patterns_def)
qed

lemmas extract_eval =
  extract_txn_id_def patterns_def REF_HEAD_def TXN_HEAD_def digits8_def group1_def
  str_int_def py_int_def str_nat_digit str_nat_more

theorem extract_txn_id_priority_witness:
  "leftmost_capture python_tables REF_HEAD (ustr ''Ref no 1 Reference No. 1234567890.'')
     (ustr ''1234567890'')
   \<and> leftmost_capture python_tables TXN_HEAD
        (ustr ''transaction reference number is 12345678'') (ustr ''12345678'')
   \<and> extract_txn_id python_tables 1700000000 (ustr ''ref 1234567'') = Some (ustr ''TXN1700000000'')"
proof -
  let ?b1 = "ustr ''Ref no 1 Reference No. 1234567890.''"
  let ?b2 = "ustr ''transaction reference number is 12345678''"
  let ?b3 = "ustr ''ref 1234567''"
  have 1: "re_search python_tables (Seq REF_HEAD digits8) ?b1 \<noteq> None"
    "extract_txn_id python_tables 0 ?b1 = Some (ustr ''1234567890'')"
    by (simp_all add: extract_eval matcher_eval)
  have 2: "re_search python_tables (Seq REF_HEAD digits8) ?b2 = None"
    "re_search python_tables (Seq TXN_HEAD digits8) ?b2 \<noteq> None"
    "extract_txn_id python_tables 0 ?b2 = Some (ustr ''12345678'')"
    by (simp_all add: extract_eval matcher_eval)
  have 3: "re_search python_tables (Seq REF_HEAD digits8) ?b3 = None"
    "re_search python_tables (Seq TXN_HEAD digits8) ?b3 = None"
    by (simp_all add: extract_eval matcher_eval)
  have 4: "str_int (py_int 1700000000) = ustr ''1700000000''"
    by (simp add: extract_eval ustr_def)
  have m1: "matches python_tables (Seq REF_HEAD digits8) ?b1"
    using 1(1) re_search_matches by blast
  have c1: "leftmost_capture python_tables REF_HEAD ?b1 (ustr ''1234567890'')"
    using extract_txn_id_priority [of python_tables ?b1 0] m1 1(2) by auto
  have m2: "\<not> matches python_tables (Seq REF_HEAD digits8) ?b2"
    "matches python_tables (Seq TXN_HEAD digits8) ?b2"
    using 2(1,2) re_search_matches by blast+
  have c2: "leftmost_capture python_tables TXN_HEAD ?b2 (ustr ''12345678'')"
    using extract_txn_id_priority [of python_tables ?b2 0] m2 2(3) by auto
  have m3: "\<not> matches python_tables (Seq REF_HEAD digits8) ?b3"
    "\<not> matches python_tables (Seq TXN_HEAD digits8) ?b3"
    using 3 re_search_matches by blast+
  have c3: "extract_txn_id python_tables 1700000000 ?b3 = Some (ustr ''TXN1700000000'')"
    using extract_txn_id_priority [of python_tables ?b3 1700000000] m3 4
    by (simp add: ustr_def)
  from c1 c2 c3 show ?thesis by blast
qed

lemma tz_mumbai_unavailable:
  "\<not> db ''Asia/Mumbai'' \<Longrightarrow> tz_mumbai db = Inl (NameError ''ZoneInfoNotFoundError'')"
  by (simp add: tz_mumbai_def zoneinfo_def lookup_global_def module_names_def)

text \<open>
  Claim C7 says that \<open>tz_mumbai\<close> falls back to UTC when the regional zone is not
  available, and never raises. The module does not import \<open>ZoneInfoNotFoundError\<close>: with
  a time zone database that has UTC and not \<open>Asia/Mumbai\<close>, the function raises
  \<open>NameError\<close> instead of returning the UTC zone.
\<close>

theorem tz_mumbai_raises_name_error:
  "tz_mumbai (\<lambda>key. key = ''UTC'') = Inl (NameError ''ZoneInfoNotFoundError'')"
  by (rule tz_mumbai_unavailable) simp






subsection \<open>The web backend\<close>

lemma clone_rejects_other_urls:
  assumes "\<not> prefix (ustr ''https://github.com/'') url"
  shows "fst (clone_github_repo git url sid)
           = Inl (ValueError security_error)
         \<and> (\<forall>u d. Git_clone u d \<notin> set (snd (clone_github_repo git url sid)))"
  using assms by (simp add: clone_github_repo_def Let_def)

lemma ingest_rejected_url_is_500:
  assumes "prefix (ustr ''http'') url" and "\<not> prefix (ustr ''https://github.com/'') url"
  shows "ingest_endpoint git rest \<lparr>session_id = sid, data = Some url\<rparr>
           = Inl (HTTPException 500 (HTTPException 400
               (ValueError security_error)))"
  using assms clone_rejects_other_urls [OF assms(2), of git sid]
  by (simp add: ingest_endpoint_def ingest_body_def)

text \<open>
  Claim C10 has two parts. The first holds: for a URL that does not start with
  \<open>https://github.com/\<close>, \<open>clone_github_repo\<close> raises \<open>ValueError\<close> and runs no
  \<open>git clone\<close> (lemma \<open>clone_rejects_other_urls\<close>). The second does not: the handler of
  \<open>ingest_endpoint\<close> turns the \<open>ValueError\<close> into an exception with status 400, but it
  raises it inside the outer \<open>try\<close>, whose \<open>except Exception\<close> catches it and raises
  status 500. For the payload \<open>http://example.com/repo\<close> the response is 500, not 400.
\<close>

theorem ingest_rejected_url_status:
  "ingest_endpoint git rest \<lparr>session_id = sid, data = Some (ustr ''http://example.com/repo'')\<rparr>
     = Inl (HTTPException 500 (HTTPException 400
         (ValueError security_error)))"
  by (rule ingest_rejected_url_is_500) (simp_all add: ustr_def)









lemma files_loop_bound:
  "current_size c = length (content c) \<Longrightarrow> current_size c \<le> MAX_SIZE \<Longrightarrow>
     current_size (files_loop files c) = length (content (files_loop files c))
     \<and> current_size (files_loop files c) \<le> MAX_SIZE"
proof (induction files arbitrary: c)
  case Nil
  then show ?case by simp
next
  case (Cons f files)
  obtain fname ftext where f: "f = (fname, ftext)" by (cases f)
  show ?case
  proof (cases "splitext_ext fname \<in> set ALLOWED_EXTENSIONS")
    case False
    with Cons.IH [OF Cons.prems] f show ?thesis by simp
  next
    case True
    show ?thesis
    proof (cases ftext)
      case None
      with True Cons.IH [OF Cons.prems] f show ?thesis by simp
    next
      case (Some file_content)
      let ?n = "length (text_chunk fname file_content)"
      show ?thesis
      proof (cases "current_size c + ?n > MAX_SIZE")
        case True
        with \<open>splitext_ext fname \<in> set ALLOWED_EXTENSIONS\<close> Some f Cons.prems show ?thesis by simp
      next
        case False
        let ?c = "c\<lparr>content := content c @ text_chunk fname file_content,
                     current_size := current_size c + ?n, file_count := file_count c + 1\<rparr>"
        have "current_size ?c = length (content ?c)" "current_size ?c \<le> MAX_SIZE"
          using False Cons.prems by simp_all
        from Cons.IH [OF this] False \<open>splitext_ext fname \<in> set ALLOWED_EXTENSIONS\<close> Some f
        show ?thesis by simp
      qed
    qed
  qed
qed

lemma dirs_loop_bound:
  "current_size c = length (content c) \<Longrightarrow> current_size c \<le> MAX_SIZE \<Longrightarrow>
     length (content (foldl (\<lambda>c files. files_loop files c) c dirs)) \<le> MAX_SIZE"
proof (induction dirs arbitrary: c)
  case Nil
  then show ?case by simp
next
  case (Cons d dirs)
  from files_loop_bound [OF Cons.prems, of d] Cons.IH [of "files_loop d c"]
  show ?case by simp
qed

text \<open>
  Claim C9. Whatever tree \<open>create_context\<close> walks, the content it writes to the context
  file has at most \<open>MAX_SIZE\<close> = 2 * 1024 * 1024 characters: a chunk is appended only
  when the running size plus the chunk is within the limit.
\<close>

theorem create_context_bounded:
  assumes "create_context root_path session = Inr (count, ctx_filename, written)"
  shows "length written \<le> MAX_SIZE \<and> MAX_SIZE = 2097152"
proof -
  let ?start = "\<lparr>content = [], file_count = 0, current_size = 0\<rparr>"
  have "length (content (foldl (\<lambda>c files. files_loop files c) ?start dirs)) \<le> MAX_SIZE" for dirs
    by (rule dirs_loop_bound) simp_all
  with assms show ?thesis
    by (auto simp: create_context_def Let_def MAX_SIZE_def split: root.splits)
qed

theorem create_context_bounded_witness:
  "create_context (Directory small_repo) (ustr ''s1'')
     = Inr (1, ustr ''repo_context.txt_s1.txt'', text_chunk (ustr ''a.py'') (ustr ''x = 1''))
   \<and> length (text_chunk (ustr ''a.py'') (ustr ''x = 1'')) \<le> MAX_SIZE"
proof -
  have 1: "create_context (Directory small_repo) (ustr ''s1'')
     = Inr (1, ustr ''repo_context.txt_s1.txt'', text_chunk (ustr ''a.py'') (ustr ''x = 1''))"
    by (simp add: create_context_def small_repo_def Let_def splitext_ext_def basename_def
        ALLOWED_EXTENSIONS_def IGNORE_DIRS_def text_chunk_def MAX_SIZE_def ustr_def slash_def dot_def)
  from create_context_bounded [OF 1] 1 show ?thesis by simp
qed

subsection \<open>The publisher\<close>

lemma upto_3: "[1..3] = [1, 2, (3::int)]"
  by (simp add: upto.simps)

lemma send_mqtt_refuses_twice:
  "send_mqtt refuses_twice 3 5 =
     (True,
      [New_client 1, Attempt_failed 1 (OtherException ''Connection refused''), Sleep 5,
       New_client 2, Attempt_failed 2 (OtherException ''Connection refused''), Sleep 5,
       New_client 3, Connect 3, Loop_start 3, On_connect 3, Publish 3, Published 1,
       Loop_stop 3, Disconnect 3, Disconnected])"
  by (simp add: send_mqtt_def upto_3 refuses_twice_def try_body_def finally_clause_def)

text \<open>
  Claim C5 says that every attempt of \<open>send_mqtt\<close> ends with the network loop stopped and
  the client disconnected, also after an acknowledgment timeout. The \<open>finally\<close> clause
  does both only when \<open>client.is_connected()\<close> holds. With a broker that accepts the first
  connection and never acknowledges it, the first attempt connects, starts the network
  loop and times out; the client is not connected, so the loop of the first client is
  never stopped and the client never disconnected, while the second attempt starts and
  the function returns \<open>True\<close>. (When two connections are refused and the third
  succeeds, the function returns \<open>True\<close> and the third client is stopped and
  disconnected: lemma \<open>send_mqtt_refuses_twice\<close>.)
\<close>

theorem send_mqtt_timeout_keeps_loop_running:
  "send_mqtt silent_then_well 3 5 =
     (True,
      [New_client 1, Connect 1, Loop_start 1,
       Attempt_failed 1 (TimeoutError ''MQTT connection timed out''), Sleep 5,
       New_client 2, Connect 2, Loop_start 2, On_connect 2, Publish 2, Published 1,
       Loop_stop 2, Disconnect 2, Disconnected])
   \<and> Loop_start 1 \<in> set (snd (send_mqtt silent_then_well 3 5))
   \<and> Loop_stop 1 \<notin> set (snd (send_mqtt silent_then_well 3 5))
   \<and> Disconnect 1 \<notin> set (snd (send_mqtt silent_then_well 3 5))"
  by (simp add: send_mqtt_def upto_3 silent_then_well_def try_body_def finally_clause_def)

subsection \<open>The two threads\<close>

lemma log_line_shared [simp]:
  "status (log_line lv m s) = status s" "queue (log_line lv m s) = queue s"
  "last_processed (log_line lv m s) = last_processed s"
  by (simp_all add: log_line_def)

lemma log_payment_shared [simp]:
  "status (log_payment env t amount s) = status s" "queue (log_payment env t amount s) = queue s"
  "last_processed (log_payment env t amount s) = last_processed s"
  by (simp_all add: log_payment_def split: sum.splits option.splits)

lemma invariant_started: "invariant (started seen rows)"
  by (simp add: invariant_def started_def)

lemma invariant_producer_step:
  assumes "invariant c"
  shows "invariant (producer_step env polled c)"
proof (cases "producer c")
  case Polling
  with assms show ?thesis
    by (auto simp: producer_step_def invariant_def Let_def split: option.splits consumer_at.splits)
next
  case (Checked t)
  with assms have n: "status (shared c) t = None" by (simp add: invariant_def)
  have q: "t \<notin> set (queue (shared c))"
    using assms n by (auto simp: invariant_def list_all_iff)
  have h: "held (consumer c) \<noteq> Some t"
    using assms n by (auto simp: invariant_def held_def split: consumer_at.splits)
  from assms Checked n q h show ?thesis
    by (auto simp: producer_step_def invariant_def fresh_def held_def Let_def list_all_iff
        split: consumer_at.splits)
next
  case (Marked t)
  with assms show ?thesis
    by (auto simp: producer_step_def invariant_def fresh_def Let_def split: consumer_at.splits)
next
  case (Logged t)
  with assms show ?thesis
    by (auto simp: producer_step_def invariant_def fresh_def held_def Let_def list_all_iff
        split: consumer_at.splits)
next
  case (Appended t)
  with assms show ?thesis
    by (auto simp: producer_step_def invariant_def Let_def split: consumer_at.splits)
qed

lemma invariant_consumer_step:
  assumes "invariant c"
  shows "invariant (consumer_step cooldown clock ok c)"
proof (cases "consumer c")
  case Waiting
  with assms show ?thesis
    by (auto simp: consumer_step_def invariant_def fresh_def held_def Let_def
        split: producer_at.splits)
next
  case Ready
  with assms obtain t rest where q: "queue (shared c) = t # rest"
    by (cases "queue (shared c)") (auto simp: invariant_def)
  from assms Ready q show ?thesis
    by (auto simp: consumer_step_def invariant_def fresh_def held_def Let_def
        split: producer_at.splits)
next
  case (Popped t)
  with assms show ?thesis
    by (auto simp: consumer_step_def invariant_def fresh_def held_def Let_def list_all_iff
        split: producer_at.splits)
next
  case (Sending t)
  with assms show ?thesis
    by (auto simp: consumer_step_def invariant_def fresh_def held_def Let_def
        split: producer_at.splits)
next
  case (Sent t sent_ok)
  with assms show ?thesis
    by (auto simp: consumer_step_def invariant_def fresh_def held_def Let_def list_all_iff
        split: producer_at.splits)
next
  case Crashed
  with assms show ?thesis by (simp add: invariant_def)
qed

lemma invariant_step: "invariant c \<Longrightarrow> invariant (step env cooldown a c)"
  by (cases a) (simp_all add: step_def invariant_producer_step invariant_consumer_step)

lemma invariant_interleave: "invariant c \<Longrightarrow> invariant (interleave env cooldown acts c)"
  by (induction acts arbitrary: c) (simp_all add: invariant_step)

lemma interleave_append:
  "interleave env cooldown (acts @ further) c = interleave env cooldown further (interleave env cooldown acts c)"
  by (induction acts arbitrary: c) simp_all

lemma step_status:
  assumes "invariant c"
  shows "status (shared (step env cooldown a c)) t = status (shared c) t
         \<or> next_status (status (shared c) t) (status (shared (step env cooldown a c)) t)"
proof (cases a)
  case (Producer_runs polled)
  with assms show ?thesis
    by (cases "producer c")
       (auto simp: step_def producer_step_def invariant_def Let_def split: option.splits)
next
  case (Consumer_runs clock ok)
  with assms show ?thesis
    by (cases "consumer c")
       (auto simp: step_def consumer_step_def invariant_def Let_def split: list.splits)
qed

lemma next_status_rank: "next_status a b \<Longrightarrow> status_rank a < status_rank b"
  by (induction a b rule: next_status.induct) simp_all

lemma interleave_status:
  assumes "invariant c"
  shows "status (shared (interleave env cooldown acts c)) t = status (shared c) t
         \<or> later_status (status (shared c) t) (status (shared (interleave env cooldown acts c)) t)"
  using assms
proof (induction acts arbitrary: c)
  case Nil
  then show ?case by simp
next
  case (Cons a acts)
  have "invariant (step env cooldown a c)"
    by (rule invariant_step [OF Cons.prems])
  from step_status [OF Cons.prems, of env cooldown a t] Cons.IH [OF this]
  show ?case
    by (auto simp: later_status_def dest: next_status_rank)
qed

text \<open>
  Claim C3. Take any interleaving of steps of \<open>main_loop\<close> and \<open>processor\<close> from the start,
  any poll results, clock readings and publish results, and any identifier. The next
  step leaves the status of the identifier as it is or moves it one place along
  absent, \<open>Queued\<close>, \<open>Processing\<close>, \<open>Completed\<close> or \<open>Failed\<close>; so it enters only as \<open>Queued\<close>.
  Over any further steps the status is the same or a later one: it never moves backward,
  never comes back to absent (so the identifier enters once), and a terminal status
  stays. The consumer never pops an empty queue.
\<close>

theorem status_only_advances:
  "(let before = interleave env cooldown acts (started seen rows);
        after = step env cooldown a before
    in status (shared after) t = status (shared before) t
       \<or> next_status (status (shared before) t) (status (shared after) t))
   \<and> (let before = interleave env cooldown acts (started seen rows);
          after = interleave env cooldown (acts @ further) (started seen rows)
      in status (shared after) t = status (shared before) t
         \<or> later_status (status (shared before) t) (status (shared after) t))
   \<and> consumer (interleave env cooldown acts (started seen rows)) \<noteq> Crashed"
proof -
  have i: "invariant (interleave env cooldown acts (started seen rows))"
    by (rule invariant_interleave [OF invariant_started])
  then have "consumer (interleave env cooldown acts (started seen rows)) \<noteq> Crashed"
    by (auto simp: invariant_def)
  with step_status [OF i, of env cooldown a t] interleave_status [OF i, of env cooldown further t]
  show ?thesis
    by (simp add: Let_def interleave_append)
qed

theorem status_only_advances_witness:
  "status (shared (interleave env_append_fails 40 one_payment (started {} []))) (ustr ''12345678'')
     = Some Queued
   \<and> status (shared (step env_append_fails 40 (Consumer_runs 100 True)
                (interleave env_append_fails 40 one_payment (started {} [])))) (ustr ''12345678'')
     = Some Processing
   \<and> next_status (Some Queued) (Some Processing)
   \<and> consumer (interleave env_append_fails 40 one_payment (started {} [])) = Popped (ustr ''12345678'')"
  using status_only_advances [of env_append_fails 40 one_payment "{}" "[]"
      "Consumer_runs 100 True" "ustr ''12345678''" "[]"]
  by (simp add: one_payment_def started_def step_def producer_step_def consumer_step_def Let_def
      ustr_def)

end
